theory Spec2Isabelle
  imports Complex_Main "HOL-Library.Sublist"
begin

section \<open>Text cells\<close>

text \<open>
  The parser in \<^verbatim>\<open>200M Data/Parser.py\<close> works on rows of text cells. A cell is a
  \<^typ>\<open>string\<close>; the 256 values of \<^typ>\<open>char\<close> are read as the code points U+0000 to
  U+00FF, so \<open>CHR 0xA0\<close> is the no-break space. Cells holding code points beyond U+00FF
  are outside this development. On this range the character classes below are the ones
  of Python 3: \<^verbatim>\<open>str.isspace\<close>, \<^verbatim>\<open>str.isdigit\<close>, \<^verbatim>\<open>str.lower\<close>, \<^verbatim>\<open>str.upper\<close>, and
  \<^verbatim>\<open>\s\<close>, \<^verbatim>\<open>\d\<close> of the module \<^verbatim>\<open>re\<close> on \<^verbatim>\<open>str\<close> patterns.

  Python floats are modelled by the real numbers they approximate: a parsed cell is the
  exact decimal value, arithmetic is exact, and \<^verbatim>\<open>round(x, 2)\<close> rounds the exact value
  (half to even). Overflow to infinity, underflow to zero and binary representation
  error are therefore not part of the model. The values of derived fields are stated
  for sample inputs only; what is proved of the derived fields for every input is
  their presence, their absence and their sign, and it is proved a second time over an
  arbitrary type of float values with an arbitrary arithmetic (\<open>compute_derived_with\<close>).
\<close>

definition isspace :: "char \<Rightarrow> bool" where
  "isspace c = (let n = (of_char c :: nat) in
     (9 \<le> n \<and> n \<le> 13) \<or> (28 \<le> n \<and> n \<le> 32) \<or> n = 133 \<or> n = 160)"

text \<open>\<^verbatim>\<open>s.strip()\<close> and \<^verbatim>\<open>s.strip(q)\<close> for a single character \<open>q\<close>.\<close>

definition strip :: "string \<Rightarrow> string" where
  "strip s = rev (dropWhile isspace (rev (dropWhile isspace s)))"

definition strip_char :: "char \<Rightarrow> string \<Rightarrow> string" where
  "strip_char q s = rev (dropWhile (\<lambda>c. c = q) (rev (dropWhile (\<lambda>c. c = q) s)))"

text \<open>
  The first replacement of \<^verbatim>\<open>norm\<close> turns every U+00A0 into a space. The second
  one deletes U+200B, a code point that no modelled cell holds.
\<close>

definition replace_nbsp :: "string \<Rightarrow> string" where
  "replace_nbsp s = map (\<lambda>c. if c = CHR 0xA0 then CHR '' '' else c) s"

text \<open>
  \<^verbatim>\<open>norm\<close> (lines 11-17), named \<open>norm_cell\<close> here. Every call site passes a
  \<^verbatim>\<open>str\<close>, so the branch for \<^verbatim>\<open>None\<close> is not reached.
\<close>

definition norm_cell :: "string \<Rightarrow> string" where
  "norm_cell s = strip_char CHR ''\"'' (strip (replace_nbsp s))"

text \<open>
  \<^verbatim>\<open>str.lower\<close> and \<^verbatim>\<open>str.upper\<close> on U+0000 to U+00FF. Upper-casing U+00DF gives
  \<^verbatim>\<open>"SS"\<close>; the upper-case forms of U+00B5 and U+00FF lie beyond U+00FF, so these two
  are left as they are (neither form is an ASCII letter).
\<close>

definition lower_char :: "char \<Rightarrow> char" where
  "lower_char c = (let n = (of_char c :: nat) in
     if (65 \<le> n \<and> n \<le> 90) \<or> (192 \<le> n \<and> n \<le> 222 \<and> n \<noteq> 215)
     then char_of (n + 32) else c)"

definition lower :: "string \<Rightarrow> string" where
  "lower s = map lower_char s"

definition upper_char :: "char \<Rightarrow> string" where
  "upper_char c = (let n = (of_char c :: nat) in
     if (97 \<le> n \<and> n \<le> 122) \<or> (224 \<le> n \<and> n \<le> 254 \<and> n \<noteq> 247)
     then [char_of (n - 32)]
     else if n = 223 then ''SS'' else [c])"

definition upper :: "string \<Rightarrow> string" where
  "upper s = concat (map upper_char s)"

section \<open>Tolerant numeric parsing\<close>

definition is_digit09 :: "char \<Rightarrow> bool" where
  "is_digit09 c = (c \<in> set ''0123456789'')"

definition digit_val :: "char \<Rightarrow> nat" where
  "digit_val c = of_char c - 48"

text \<open>The value of a string of decimal digits, most significant first.\<close>

definition digits_val :: "string \<Rightarrow> nat" where
  "digits_val ds = foldl (\<lambda>acc c. 10 * acc + digit_val c) 0 ds"

datatype error = ValueError

text \<open>
  \<^verbatim>\<open>float(s)\<close> on the strings that reach it in \<^verbatim>\<open>parse_float\<close>: those are made of
  digits, dots and minus signs only, and on them \<^verbatim>\<open>float\<close> accepts an optional
  leading minus sign followed by digits with at most one dot and at least one digit.
  On anything else it raises \<^verbatim>\<open>ValueError\<close>.
\<close>

definition py_float :: "string \<Rightarrow> error + real" where
  "py_float s =
     (let neg = (s \<noteq> [] \<and> hd s = CHR ''-'');
          body = (if neg then tl s else s);
          ip = takeWhile is_digit09 body;
          rest = dropWhile is_digit09 body;
          fp = (if rest \<noteq> [] \<and> hd rest = CHR ''.'' then tl rest else rest);
          v = real (digits_val (ip @ fp)) / 10 ^ length fp
      in if (rest = [] \<or> hd rest = CHR ''.'') \<and> list_all is_digit09 fp \<and> (ip \<noteq> [] \<or> fp \<noteq> [])
         then Inr (if neg then - v else v) else Inl ValueError)"

text \<open>
  \<^verbatim>\<open>re.sub(r"[^0-9.\-]+", "", s)\<close>: every maximal run of characters outside the class
  is replaced by the empty string, which leaves the characters of the class in order.
\<close>

definition keep_char :: "char \<Rightarrow> bool" where
  "keep_char c = (is_digit09 c \<or> c = CHR ''.'' \<or> c = CHR ''-'')"

definition re_sub_non_numeric :: "string \<Rightarrow> string" where
  "re_sub_non_numeric s = filter keep_char s"

text \<open>
  \<^verbatim>\<open>parse_float\<close> (lines 19-29); the \<^verbatim>\<open>try\<close> statement turns the exception of
  \<^verbatim>\<open>float\<close> into \<^verbatim>\<open>None\<close>.
\<close>

definition parse_float :: "string \<Rightarrow> real option" where
  "parse_float x =
     (let s = norm_cell x in
      if s = [] \<or> upper s \<in> {''NA'', ''NULL''} then None
      else let s' = re_sub_non_numeric s in
        if s' \<in> {[], ''-'', ''--''} then None
        else (case py_float s' of Inl e \<Rightarrow> None | Inr v \<Rightarrow> Some v))"

section \<open>Row helpers\<close>

text \<open>
  \<^verbatim>\<open>looks_like_athlete\<close> (lines 31-34) searches the normalised cell for the pattern
  \<^verbatim>\<open>\([A-Z]{3}\)\s*\(\d{4}\)\<close>. \<open>athlete_match_here\<close> is a match that starts at the
  head of the string; the character after \<^verbatim>\<open>\s*\<close> must be a parenthesis, which is not
  white space, so the run of white space is consumed whole.
\<close>

definition is_upper_AZ :: "char \<Rightarrow> bool" where
  "is_upper_AZ c = (c \<in> set ''ABCDEFGHIJKLMNOPQRSTUVWXYZ'')"

fun year_match_here :: "string \<Rightarrow> bool" where
  "year_match_here (q1 # d1 # d2 # d3 # d4 # q2 # rest) =
     (q1 = CHR ''('' \<and> is_digit09 d1 \<and> is_digit09 d2 \<and> is_digit09 d3 \<and> is_digit09 d4 \<and>
      q2 = CHR '')'')"
| "year_match_here _ = False"

fun athlete_match_here :: "string \<Rightarrow> bool" where
  "athlete_match_here (p1 # a # b # c # p2 # rest) =
     (p1 = CHR ''('' \<and> is_upper_AZ a \<and> is_upper_AZ b \<and> is_upper_AZ c \<and> p2 = CHR '')'' \<and>
      year_match_here (dropWhile isspace rest))"
| "athlete_match_here _ = False"

fun re_search_athlete :: "string \<Rightarrow> bool" where
  "re_search_athlete [] = False"
| "re_search_athlete (x # xs) = (athlete_match_here (x # xs) \<or> re_search_athlete xs)"

definition looks_like_athlete :: "string \<Rightarrow> bool" where
  "looks_like_athlete cell = re_search_athlete (norm_cell cell)"

text \<open>\<^verbatim>\<open>is_source_text\<close> (lines 36-37); \<^verbatim>\<open>k in txt\<close> is the test for a contiguous sublist.\<close>

definition is_source_text :: "string \<Rightarrow> bool" where
  "is_source_text txt =
     list_ex (\<lambda>k. sublist k txt) [''Timing'', ''www.'', ''Tsuchie'', ''analysis'', ''run speed'']"

text \<open>\<^verbatim>\<open>row_contains_token\<close> and \<^verbatim>\<open>find_token_idx\<close> (lines 39-48).\<close>

definition row_contains_token :: "string list \<Rightarrow> string \<Rightarrow> bool" where
  "row_contains_token row token = list_ex (\<lambda>c. lower (norm_cell c) = lower token) row"

fun find_token_idx :: "string list \<Rightarrow> string \<Rightarrow> nat option" where
  "find_token_idx [] token = None"
| "find_token_idx (c # row) token =
     (if lower (norm_cell c) = lower token then Some 0
      else map_option Suc (find_token_idx row token))"

text \<open>\<^verbatim>\<open>first_nonempty_after\<close> and \<^verbatim>\<open>last_nonempty\<close> (lines 50-60).\<close>

definition first_nonempty_after :: "string list \<Rightarrow> nat \<Rightarrow> string option" where
  "first_nonempty_after row start_idx = find (\<lambda>c. norm_cell c \<noteq> []) (drop (start_idx + 1) row)"

definition last_nonempty :: "string list \<Rightarrow> string option" where
  "last_nonempty row = find (\<lambda>c. norm_cell c \<noteq> []) (rev row)"

text \<open>\<^verbatim>\<open>is_meet_line\<close> (lines 62-68).\<close>

fun is_meet_line :: "string list \<Rightarrow> bool" where
  "is_meet_line (r0 # r1 # rest) =
     (let c0 = norm_cell r0; c1 = norm_cell r1;
          looks_meetish = (sublist '' - '' c1 \<or> (CHR ''('' \<in> set c1 \<and> CHR '')'' \<in> set c1))
      in c0 = [] \<and> c1 \<noteq> [] \<and> looks_meetish)"
| "is_meet_line _ = False"

text \<open>\<^verbatim>\<open>",".join(row)\<close>.\<close>

fun join_comma :: "string list \<Rightarrow> string" where
  "join_comma [] = []"
| "join_comma [c] = c"
| "join_comma (c # cs) = c @ '','' @ join_comma cs"

text \<open>The truth value of an \<^verbatim>\<open>Optional[str]\<close>: neither \<^verbatim>\<open>None\<close> nor empty.\<close>

definition truthy :: "string option \<Rightarrow> bool" where
  "truthy v = (case v of None \<Rightarrow> False | Some s \<Rightarrow> s \<noteq> [])"

section \<open>Records under construction\<close>

text \<open>
  \<^verbatim>\<open>pending\<close> is a dictionary whose keys are drawn from the 23 column names. Each key
  is a field here; a field is \<open>Missing\<close> when the dictionary has no such key, \<open>Null\<close>
  when the key holds \<^verbatim>\<open>None\<close>, and \<open>Has v\<close> otherwise. The keys \<^verbatim>\<open>"Meet Info"\<close>,
  \<^verbatim>\<open>"50m"\<close> to \<^verbatim>\<open>"200m"\<close>, \<^verbatim>\<open>"0-100m"\<close> and \<^verbatim>\<open>"100-200m"\<close> are the fields
  \<open>Meet_Info\<close>, \<open>Split_50m\<close> to \<open>Split_200m\<close>, \<open>Seg_0_100m\<close> and \<open>Seg_100_200m\<close>.
\<close>

datatype 'a slot = Missing | Null | Has 'a

record 'f perf_of =
  Athlete :: "string slot"
  Meet_Info :: "string slot"
  Lane_Place :: "string slot"
  Wind :: "string slot"
  Date :: "string slot"
  RT :: "'f slot"
  Split_50m :: "'f slot"
  Split_100m :: "'f slot"
  Split_150m :: "'f slot"
  Split_200m :: "'f slot"
  Time :: "'f slot"
  Seg_0_100m :: "'f slot"
  Seg_100_200m :: "'f slot"
  Differential :: "'f slot"
  Vel_50m :: "'f slot"
  Vel_100m :: "'f slot"
  Vel_150m :: "'f slot"
  Vel_200m :: "'f slot"
  Vel_0_100m :: "'f slot"
  Vel_100_200m :: "'f slot"
  StrideRate :: "int slot"
  Source :: "string slot"
  Ath_Mt_Strd :: "string slot"

type_synonym perf = "real perf_of"

text \<open>The empty dictionary \<^verbatim>\<open>{}\<close>; \<^verbatim>\<open>not pending\<close> is equality with it.\<close>

definition empty_dict :: perf where
  "empty_dict = \<lparr>Athlete = Missing, Meet_Info = Missing, Lane_Place = Missing, Wind = Missing,
     Date = Missing, RT = Missing, Split_50m = Missing, Split_100m = Missing,
     Split_150m = Missing, Split_200m = Missing, Time = Missing, Seg_0_100m = Missing,
     Seg_100_200m = Missing, Differential = Missing, Vel_50m = Missing, Vel_100m = Missing,
     Vel_150m = Missing, Vel_200m = Missing, Vel_0_100m = Missing, Vel_100_200m = Missing,
     StrideRate = Missing, Source = Missing, Ath_Mt_Strd = Missing\<rparr>"

text \<open>Storing an \<^verbatim>\<open>Optional\<close> value under a key, and \<^verbatim>\<open>p.get(key)\<close>.\<close>

definition of_opt :: "'a option \<Rightarrow> 'a slot" where
  "of_opt v = (case v of None \<Rightarrow> Null | Some x \<Rightarrow> Has x)"

definition get :: "'a slot \<Rightarrow> 'a option" where
  "get s = (case s of Has x \<Rightarrow> Some x | _ \<Rightarrow> None)"

section \<open>Derived metrics\<close>

definition round_half_even :: "real \<Rightarrow> int" where
  "round_half_even x =
     (let f = \<lfloor>x\<rfloor>; d = x - of_int f
      in if d < 1 / 2 then f else if 1 / 2 < d then f + 1 else if even f then f else f + 1)"

text \<open>
  \<^verbatim>\<open>round(x, 2)\<close> on the exact value. Python rounds the binary double instead, so
  the two differ where the exact value is a tie or the double is not the exact value:
  for 100 / 20000 the exact value 0.005 rounds to 0 here, and the double to 0.01 in
  Python. An infinite argument, which Python returns unchanged, has no counterpart here.
\<close>

definition round2 :: "real \<Rightarrow> real" where
  "round2 x = of_int (round_half_even (x * 100)) / 100"

text \<open>\<^verbatim>\<open>compute_derived\<close> (lines 70-80).\<close>

definition compute_derived :: "perf \<Rightarrow> perf" where
  "compute_derived p =
     (let t100 = get (Split_100m p);
          t200 = get (Split_200m p);
          p1 = (case t100 of
                  None \<Rightarrow> p
                | Some a \<Rightarrow> p\<lparr>Seg_0_100m := Has (round2 a),
                              Vel_0_100m := (if 0 < a then Has (round2 (100 / a)) else Null)\<rparr>)
      in case (t100, t200) of
           (Some a, Some b) \<Rightarrow>
             (let seg2 = b - a
              in p1\<lparr>Seg_100_200m := Has (round2 seg2),
                     Vel_100_200m := (if 0 < seg2 then Has (round2 (100 / seg2)) else Null),
                     Differential := Has (round2 (seg2 - a))\<rparr>)
         | _ \<Rightarrow> p1)"

text \<open>
  The same function over any type \<open>'f\<close> of float values, with its arithmetic made
  explicit: \<open>op_round\<close> is \<^verbatim>\<open>round(x, 2)\<close>, \<open>op_sub\<close> the subtraction, \<open>op_div\<close> the
  division, \<open>op_pos\<close> the test \<^verbatim>\<open>x > 0\<close> and \<open>op_hundred\<close> the constant \<^verbatim>\<open>100.0\<close>.
  Python's division raises \<^verbatim>\<open>ZeroDivisionError\<close> on a zero divisor, so \<open>op_div\<close> may
  raise, and \<open>compute_derived_with\<close> follows lines 70-80 statement by statement, an error
  ending the computation. \<open>exact_ops\<close> is the arithmetic of \<open>compute_derived\<close> above: the
  real numbers, with a division that raises on zero.
\<close>

datatype arith_error = ZeroDivisionError

record 'f float_ops =
  op_round :: "'f \<Rightarrow> 'f"
  op_sub :: "'f \<Rightarrow> 'f \<Rightarrow> 'f"
  op_div :: "'f \<Rightarrow> 'f \<Rightarrow> arith_error + 'f"
  op_pos :: "'f \<Rightarrow> bool"
  op_hundred :: 'f

definition py_div :: "real \<Rightarrow> real \<Rightarrow> arith_error + real" where
  "py_div a b = (if b = 0 then Inl ZeroDivisionError else Inr (a / b))"

definition exact_ops :: "real float_ops" where
  "exact_ops = \<lparr>op_round = round2, op_sub = (-), op_div = py_div,
     op_pos = (\<lambda>x. 0 < x), op_hundred = 100\<rparr>"

definition compute_derived_with :: "'f float_ops \<Rightarrow> 'f perf_of \<Rightarrow> arith_error + 'f perf_of" where
  "compute_derived_with ops p =
     (let t100 = get (Split_100m p);
          t200 = get (Split_200m p);
          r1 = (case t100 of
                  None \<Rightarrow> Inr p
                | Some a \<Rightarrow>
                    (let q = p\<lparr>Seg_0_100m := Has (op_round ops a)\<rparr>
                     in if op_pos ops a
                        then (case op_div ops (op_hundred ops) a of
                                Inl e \<Rightarrow> Inl e
                              | Inr v \<Rightarrow> Inr (q\<lparr>Vel_0_100m := Has (op_round ops v)\<rparr>))
                        else Inr (q\<lparr>Vel_0_100m := Null\<rparr>)))
      in case r1 of
           Inl e \<Rightarrow> Inl e
         | Inr p1 \<Rightarrow>
             (case (t100, t200) of
                (Some a, Some b) \<Rightarrow>
                  (let seg2 = op_sub ops b a;
                       q = p1\<lparr>Seg_100_200m := Has (op_round ops seg2)\<rparr>
                   in if op_pos ops seg2
                      then (case op_div ops (op_hundred ops) seg2 of
                              Inl e \<Rightarrow> Inl e
                            | Inr v \<Rightarrow>
                                Inr (q\<lparr>Vel_100_200m := Has (op_round ops v),
                                       Differential :=
                                         Has (op_round ops (op_sub ops seg2 a))\<rparr>))
                      else Inr (q\<lparr>Vel_100_200m := Null,
                                  Differential := Has (op_round ops (op_sub ops seg2 a))\<rparr>))
              | _ \<Rightarrow> Inr p1))"

section \<open>The accumulator\<close>

text \<open>
  The module-level variables \<^verbatim>\<open>records\<close>, \<^verbatim>\<open>current_athlete\<close>, \<^verbatim>\<open>current_meet\<close>,
  \<^verbatim>\<open>current_source\<close> and \<^verbatim>\<open>pending\<close> (lines 87-91).
\<close>

record state =
  records :: "perf list"
  current_athlete :: "string option"
  current_meet :: "string option"
  current_source :: "string option"
  pending :: perf

definition init_state :: state where
  "init_state = \<lparr>records = [], current_athlete = None, current_meet = None,
     current_source = None, pending = empty_dict\<rparr>"

text \<open>\<^verbatim>\<open>str(n)\<close> for an integer.\<close>

fun str_nat :: "nat \<Rightarrow> string" where
  "str_nat n = (if n < 10 then [char_of (48 + n)]
                else str_nat (n div 10) @ [char_of (48 + n mod 10)])"

declare str_nat.simps [simp del]

definition str_int :: "int \<Rightarrow> string" where
  "str_int i = (if i < 0 then CHR ''-'' # str_nat (nat (- i)) else str_nat (nat i))"

text \<open>
  How the f-string of line 99 renders \<^verbatim>\<open>pending.get(key, "")\<close>: the default for a
  missing key, the text \<^verbatim>\<open>None\<close> for a key that holds \<^verbatim>\<open>None\<close>.
\<close>

definition fmt_get :: "string slot \<Rightarrow> string" where
  "fmt_get s = (case s of Missing \<Rightarrow> [] | Null \<Rightarrow> ''None'' | Has v \<Rightarrow> v)"

definition ath_mt_strd :: "perf \<Rightarrow> string" where
  "ath_mt_strd p =
     (let sr = get (StrideRate p)
      in strip_char CHR ''_''
           (fmt_get (Athlete p) @ ''_'' @ fmt_get (Meet_Info p) @ ''_'' @
            (case sr of Some n \<Rightarrow> str_int n | None \<Rightarrow> [])))"

text \<open>\<^verbatim>\<open>flush\<close> (lines 93-103).\<close>

definition flush :: "state \<Rightarrow> state" where
  "flush st =
     (if pending st = empty_dict then st
      else
        let p1 = compute_derived (pending st);
            p2 = p1\<lparr>Ath_Mt_Strd := Has (ath_mt_strd p1)\<rparr>;
            p3 = (if truthy (current_source st) \<and> \<not> truthy (get (Source p2))
                  then p2\<lparr>Source := of_opt (current_source st)\<rparr> else p2)
        in st\<lparr>records := records st @ [p3], pending := empty_dict\<rparr>)"

section \<open>The row loop\<close>

text \<open>Lines 107-108: trailing empty cells are popped.\<close>

definition trim_trailing :: "string list \<Rightarrow> string list" where
  "trim_trailing row = rev (dropWhile (\<lambda>c. c = []) (rev row))"

text \<open>Athlete header (lines 113-118).\<close>

definition athlete_header :: "state \<Rightarrow> string list \<Rightarrow> state" where
  "athlete_header st row =
     (flush st)\<lparr>current_athlete := Some (hd row), current_meet := None,
                current_source := None\<rparr>"

text \<open>Meet line (lines 121-130).\<close>

definition meet_line :: "state \<Rightarrow> string list \<Rightarrow> state" where
  "meet_line st row =
     (let st1 = (case find (\<lambda>c. norm_cell c \<noteq> []) (drop 1 row) of
                   Some c \<Rightarrow> st\<lparr>current_meet := Some (norm_cell c)\<rparr>
                 | None \<Rightarrow> st);
          tail = (if 2 < length row then last_nonempty (drop 2 row) else None)
      in if truthy tail \<and> is_source_text (the tail)
         then st1\<lparr>current_source := tail\<rparr> else st1)"

text \<open>Standalone source (lines 133-138), once its test has passed.\<close>

definition standalone_source :: "state \<Rightarrow> string list \<Rightarrow> state" where
  "standalone_source st row =
     (let maybe = last_nonempty row
      in if truthy maybe then st\<lparr>current_source := maybe\<rparr> else st)"

text \<open>
  The numeric cells of a slice, in order: \<^verbatim>\<open>parse_float\<close> on every cell, the
  \<^verbatim>\<open>None\<close> results dropped (lines 157-158 and 166-167).
\<close>

definition numeric_cells :: "string list \<Rightarrow> real list" where
  "numeric_cells cells = List.map_filter parse_float cells"

text \<open>The dictionary \<^verbatim>\<open>splits\<close> together with \<^verbatim>\<open>time_val\<close> (lines 153-154).\<close>

record splits =
  s50 :: "real option"
  s100 :: "real option"
  s150 :: "real option"
  s200 :: "real option"
  time_val :: "real option"

definition no_splits :: splits where
  "no_splits = \<lparr>s50 = None, s100 = None, s150 = None, s200 = None, time_val = None\<rparr>"

text \<open>Strategy A (lines 156-163).\<close>

definition strategy_A :: "string list \<Rightarrow> nat option \<Rightarrow> splits" where
  "strategy_A row t_idx =
     (case t_idx of
        None \<Rightarrow> no_splits
      | Some t \<Rightarrow>
          (let nums = numeric_cells (drop (t + 1) row)
           in if 5 \<le> length nums
              then \<lparr>s50 = Some (nums ! 0), s100 = Some (nums ! 1), s150 = Some (nums ! 2),
                    s200 = Some (nums ! 3), time_val = Some (nums ! 4)\<rparr>
              else if 4 \<le> length nums
              then \<lparr>s50 = Some (nums ! 0), s100 = Some (nums ! 1), s150 = Some (nums ! 2),
                    s200 = Some (nums ! 3), time_val = Some (nums ! 3)\<rparr>
              else no_splits))"

text \<open>Strategy B (lines 165-170).\<close>

definition strategy_B :: "string list \<Rightarrow> splits \<Rightarrow> splits" where
  "strategy_B row sp =
     (if s50 sp = None
      then (let nums = numeric_cells row
            in if 4 \<le> length nums
               then \<lparr>s50 = Some (nums ! 0), s100 = Some (nums ! 1), s150 = Some (nums ! 2),
                     s200 = Some (nums ! 3),
                     time_val = (if 4 < length nums then Some (nums ! 4) else Some (nums ! 3))\<rparr>
               else sp)
      else sp)"

text \<open>Lines 152-170 as a whole.\<close>

definition extract_splits :: "string list \<Rightarrow> splits" where
  "extract_splits row = strategy_B row (strategy_A row (find_token_idx row ''time''))"

text \<open>Date row (lines 141-185), once \<^verbatim>\<open>d_idx\<close> has been found.\<close>

definition date_row :: "state \<Rightarrow> string list \<Rightarrow> nat \<Rightarrow> state" where
  "date_row st row d_idx =
     (let st1 = flush st;
          t_idx = find_token_idx row ''time'';
          lane_place = (case t_idx of
                          None \<Rightarrow> None
                        | Some t \<Rightarrow> find (\<lambda>c. CHR ''/'' \<in> set c) (drop (t + 1) row));
          sp = extract_splits row
      in st1\<lparr>pending := empty_dict\<lparr>
           Athlete := of_opt (current_athlete st1),
           Meet_Info := of_opt (current_meet st1),
           Date := of_opt (first_nonempty_after row d_idx),
           Split_50m := of_opt (s50 sp),
           Split_100m := of_opt (s100 sp),
           Split_150m := of_opt (s150 sp),
           Split_200m := of_opt (s200 sp),
           Time := of_opt (case time_val sp of Some v \<Rightarrow> Some v | None \<Rightarrow> s200 sp),
           Lane_Place := of_opt lane_place,
           Source := of_opt (current_source st1)\<rparr>\<rparr>)"

text \<open>Reaction time row (lines 188-193), once \<^verbatim>\<open>rt_idx\<close> has been found.\<close>

definition reaction_time_row :: "state \<Rightarrow> string list \<Rightarrow> nat \<Rightarrow> state" where
  "reaction_time_row st row rt_idx =
     (let rt_val = first_nonempty_after row rt_idx
      in if truthy rt_val
         then st\<lparr>pending := (pending st)\<lparr>RT := of_opt (parse_float (the rt_val))\<rparr>\<rparr>
         else st)"

text \<open>
  \<^verbatim>\<open>sc.isdigit()\<close> holds for a non-empty string of digit characters; on U+0000 to U+00FF
  those are the ten decimal digits and the superscripts U+00B2, U+00B3 and U+00B9.
  \<^verbatim>\<open>int(sc)\<close> converts the decimal digits only and raises \<^verbatim>\<open>ValueError\<close> on a
  superscript.
\<close>

definition isdigit_char :: "char \<Rightarrow> bool" where
  "isdigit_char c = (is_digit09 c \<or> c = CHR 0xB2 \<or> c = CHR 0xB3 \<or> c = CHR 0xB9)"

definition isdigit :: "string \<Rightarrow> bool" where
  "isdigit sc = (sc \<noteq> [] \<and> list_all isdigit_char sc)"

definition py_int :: "string \<Rightarrow> error + int" where
  "py_int sc = (if list_all is_digit09 sc then Inr (int (digits_val sc)) else Inl ValueError)"

text \<open>Stride rate detection (lines 214-220): the loop over the cells after the anchor.\<close>

fun find_stride :: "string list \<Rightarrow> error + int option" where
  "find_stride [] = Inr None"
| "find_stride (c # cs) =
     (let sc = norm_cell c
      in if isdigit sc
         then (case py_int sc of
                 Inl e \<Rightarrow> Inl e
               | Inr iv \<Rightarrow> if 20 \<le> iv \<and> iv \<le> 130 then Inr (Some iv) else find_stride cs)
         else find_stride cs)"

text \<open>Wind and velocities (lines 196-221), once \<^verbatim>\<open>w_idx\<close> has been found.\<close>

definition wind_row :: "state \<Rightarrow> string list \<Rightarrow> nat \<Rightarrow> error + state" where
  "wind_row st row w_idx =
     (let w_val = first_nonempty_after row w_idx;
          p1 = (if truthy w_val then (pending st)\<lparr>Wind := of_opt w_val\<rparr> else pending st)
      in case find_token_idx row ''velocity'' of
           None \<Rightarrow> Inr (st\<lparr>pending := p1\<rparr>)
         | Some v_idx \<Rightarrow>
             (let vel_vals = numeric_cells (take 9 (drop (v_idx + 1) row));
                  p2 = (if 1 \<le> length vel_vals then p1\<lparr>Vel_50m := Has (vel_vals ! 0)\<rparr> else p1);
                  p3 = (if 2 \<le> length vel_vals then p2\<lparr>Vel_100m := Has (vel_vals ! 1)\<rparr> else p2);
                  p4 = (if 3 \<le> length vel_vals then p3\<lparr>Vel_150m := Has (vel_vals ! 2)\<rparr> else p3);
                  p5 = (if 4 \<le> length vel_vals then p4\<lparr>Vel_200m := Has (vel_vals ! 3)\<rparr> else p4)
              in case find_stride (drop (v_idx + 1) row) of
                   Inl e \<Rightarrow> Inl e
                 | Inr None \<Rightarrow> Inr (st\<lparr>pending := p5\<rparr>)
                 | Inr (Some iv) \<Rightarrow> Inr (st\<lparr>pending := p5\<lparr>StrideRate := Has iv\<rparr>\<rparr>)))"

text \<open>
  One iteration of the loop over \<^verbatim>\<open>rows\<close> (lines 105-221). The branches are tried in
  the order of the source; each one ends with \<^verbatim>\<open>continue\<close>.
\<close>

definition process_row :: "state \<Rightarrow> string list \<Rightarrow> error + state" where
  "process_row st row0 =
     (let row = trim_trailing row0
      in if row = [] then Inr st
         else if looks_like_athlete (hd row) then Inr (athlete_header st row)
         else if is_meet_line row then Inr (meet_line st row)
         else if is_source_text (join_comma row) \<and> \<not> row_contains_token row ''date''
         then Inr (standalone_source st row)
         else (case find_token_idx row ''date'' of
                 Some d_idx \<Rightarrow> Inr (date_row st row d_idx)
               | None \<Rightarrow>
                   (case find_token_idx row ''reaction time'' of
                      Some rt_idx \<Rightarrow> Inr (reaction_time_row st row rt_idx)
                    | None \<Rightarrow>
                        (case find_token_idx row ''wind'' of
                           Some w_idx \<Rightarrow> wind_row st row w_idx
                         | None \<Rightarrow> Inr st))))"

fun process_rows :: "state \<Rightarrow> string list list \<Rightarrow> error + state" where
  "process_rows st [] = Inr st"
| "process_rows st (row # rows) =
     (case process_row st row of
        Inl e \<Rightarrow> Inl e
      | Inr st' \<Rightarrow> process_rows st' rows)"

text \<open>
  The whole pass: the cells are normalised as they are read (line 85), the rows are
  processed in order, and the last performance is flushed (line 224).
\<close>

definition run :: "string list list \<Rightarrow> error + perf list" where
  "run rows =
     (case process_rows init_state (map (map norm_cell) rows) of
        Inl e \<Rightarrow> Inl e
      | Inr st \<Rightarrow> Inr (records (flush st)))"

section \<open>Invariants of the pass\<close>

text \<open>
  Only \<^verbatim>\<open>compute_derived\<close> writes the five derived keys, and it runs on a dictionary
  just before that dictionary leaves \<^verbatim>\<open>pending\<close>. So the accumulator never holds a
  derived key, and in every record of the output the presence of the two derived
  velocities is determined by the record's own splits.
\<close>

definition no_derived :: "'f perf_of \<Rightarrow> bool" where
  "no_derived p =
     (Seg_0_100m p = Missing \<and> Seg_100_200m p = Missing \<and> Differential p = Missing \<and>
      Vel_0_100m p = Missing \<and> Vel_100_200m p = Missing)"

definition velocities_ok :: "perf \<Rightarrow> bool" where
  "velocities_ok r =
     ((case get (Split_100m r) of
         None \<Rightarrow> Vel_0_100m r = Missing
       | Some a \<Rightarrow>
           if 0 < a then (case Vel_0_100m r of Has v \<Rightarrow> 0 \<le> v | _ \<Rightarrow> False)
           else Vel_0_100m r = Null) \<and>
      (case (get (Split_100m r), get (Split_200m r)) of
         (Some a, Some b) \<Rightarrow>
           if 0 < b - a then (case Vel_100_200m r of Has v \<Rightarrow> 0 \<le> v | _ \<Rightarrow> False)
           else Vel_100_200m r = Null
       | _ \<Rightarrow> Vel_100_200m r = Missing))"

definition pass_inv :: "state \<Rightarrow> bool" where
  "pass_inv st = (no_derived (pending st) \<and> list_all velocities_ok (records st))"

section \<open>The branch order, in the source and in the specification\<close>

datatype category =
  AthleteMarker | MeetLine | DateRow | ReactionTimeRow | WindRow | SourceLine | Unclassified

text \<open>What the loop body does with a trimmed row once the row has a category.\<close>

definition dispatch :: "category \<Rightarrow> state \<Rightarrow> string list \<Rightarrow> error + state" where
  "dispatch cat st row =
     (case cat of
        AthleteMarker \<Rightarrow> Inr (athlete_header st row)
      | MeetLine \<Rightarrow> Inr (meet_line st row)
      | SourceLine \<Rightarrow> Inr (standalone_source st row)
      | DateRow \<Rightarrow> Inr (date_row st row (the (find_token_idx row ''date'')))
      | ReactionTimeRow \<Rightarrow>
          Inr (reaction_time_row st row (the (find_token_idx row ''reaction time'')))
      | WindRow \<Rightarrow> wind_row st row (the (find_token_idx row ''wind''))
      | Unclassified \<Rightarrow> Inr st)"

text \<open>The order in which lines 113-221 test a trimmed row.\<close>

definition branch_taken :: "string list \<Rightarrow> category" where
  "branch_taken row =
     (if row = [] then Unclassified
      else if looks_like_athlete (hd row) then AthleteMarker
      else if is_meet_line row then MeetLine
      else if is_source_text (join_comma row) \<and> \<not> row_contains_token row ''date''
      then SourceLine
      else if row_contains_token row ''date'' then DateRow
      else if row_contains_token row ''reaction time'' then ReactionTimeRow
      else if row_contains_token row ''wind'' then WindRow
      else Unclassified)"


section \<open>Numeric parsing in the words of the specification\<close>

text \<open>
  The specification has \<^verbatim>\<open>parse_number\<close> strip every character that is not a digit, a
  decimal point, or a leading minus sign. A minus sign is taken to be leading when no
  kept character comes before it; the flag of \<open>spec_strip\<close> says that nothing has been
  kept so far.
\<close>

fun spec_strip :: "bool \<Rightarrow> string \<Rightarrow> string" where
  "spec_strip lead [] = []"
| "spec_strip lead (c # cs) =
     (if is_digit09 c \<or> c = CHR ''.'' then c # spec_strip False cs
      else if c = CHR ''-'' \<and> lead then c # spec_strip False cs
      else spec_strip lead cs)"

definition spec_parse_number :: "string \<Rightarrow> real option" where
  "spec_parse_number cell =
     (let s = norm_cell cell in
      if s = [] \<or> upper s \<in> {''NA'', ''NULL''} then None
      else (case py_float (spec_strip True s) of Inl e \<Rightarrow> None | Inr v \<Rightarrow> Some v))"

section \<open>Sample inputs\<close>

text \<open>The two rows of the Lausanne scenario and the states they lead to.\<close>

definition lausanne_meet :: "string list" where
  "lausanne_meet = ['''', ''Lausanne Diamond League - 200m'']"

definition lausanne_date :: "string list" where
  "lausanne_date = [''Date'', '''', ''14 JUN 2024'', ''Time'', '''', ''5.82'', ''10.10'',
     ''14.55'', ''19.95'', ''19.95'']"

definition lausanne_pending :: perf where
  "lausanne_pending = empty_dict\<lparr>Athlete := Null,
     Meet_Info := Has ''Lausanne Diamond League - 200m'', Date := Has ''14 JUN 2024'',
     Split_50m := Has 5.82, Split_100m := Has 10.10, Split_150m := Has 14.55,
     Split_200m := Has 19.95, Time := Has 19.95, Lane_Place := Null, Source := Null\<rparr>"

definition lausanne_record :: perf where
  "lausanne_record = lausanne_pending\<lparr>Seg_0_100m := Has 10.10, Vel_0_100m := Has 9.90,
     Seg_100_200m := Has 9.85, Vel_100_200m := Has 10.15, Differential := Has (- 0.25),
     Ath_Mt_Strd := Has ''None_Lausanne Diamond League - 200m''\<rparr>"

definition lausanne_st1 :: state where
  "lausanne_st1 = init_state\<lparr>current_meet := Some ''Lausanne Diamond League - 200m''\<rparr>"

definition lausanne_st2 :: state where
  "lausanne_st2 = lausanne_st1\<lparr>pending := lausanne_pending\<rparr>"

text \<open>A Date row with no \<^verbatim>\<open>time\<close> label and very long durations.\<close>

definition slow_date :: "string list" where
  "slow_date = [''Date'', ''1'', ''100000'', ''150000'', ''200000'']"

definition slow_pending :: perf where
  "slow_pending = empty_dict\<lparr>Athlete := Null, Meet_Info := Null, Date := Has ''1'',
     Split_50m := Has 1, Split_100m := Has 100000, Split_150m := Has 150000,
     Split_200m := Has 200000, Time := Has 200000, Lane_Place := Null, Source := Null\<rparr>"

definition slow_record :: perf where
  "slow_record = slow_pending\<lparr>Seg_0_100m := Has 100000, Vel_0_100m := Has 0,
     Seg_100_200m := Has 100000, Vel_100_200m := Has 0, Differential := Has 0,
     Ath_Mt_Strd := Has ''None_None''\<rparr>"

text \<open>
  A reaction time row, alone and with a source citation in a further cell; an athlete
  header; a Date row without numbers.
\<close>

definition rt_row :: "string list" where
  "rt_row = [''reaction time'', ''0.142'']"

definition rt_only_pending :: perf where
  "rt_only_pending = empty_dict\<lparr>RT := Has 0.142\<rparr>"

definition rt_only_record :: perf where
  "rt_only_record = rt_only_pending\<lparr>Ath_Mt_Strd := Has []\<rparr>"


definition bolt_header :: "string list" where
  "bolt_header = [''Bolt, Usain (JAM) (1986)'']"

definition bare_date :: "string list" where
  "bare_date = [''Date'', ''14 JUN 2024'']"

definition bolt_st :: state where
  "bolt_st = init_state\<lparr>current_athlete := Some ''Bolt, Usain (JAM) (1986)''\<rparr>"

definition bolt_pending :: perf where
  "bolt_pending = empty_dict\<lparr>Athlete := Has ''Bolt, Usain (JAM) (1986)'', Meet_Info := Null,
     Date := Has ''14 JUN 2024'', Split_50m := Null, Split_100m := Null, Split_150m := Null,
     Split_200m := Null, Time := Null, Lane_Place := Null, Source := Null\<rparr>"

definition bolt_record :: perf where
  "bolt_record = bolt_pending\<lparr>Ath_Mt_Strd := Has ''Bolt, Usain (JAM) (1986)_None''\<rparr>"

text \<open>Rows for the other cases of the split extraction.\<close>

definition four_after_time :: "string list" where
  "four_after_time = [''Date'', '''', ''14 JUN 2024'', ''Time'', ''5.82'', ''10.10'', ''14.55'',
     ''19.95'']"

definition five_no_time :: "string list" where
  "five_no_time = [''Date'', ''5.82'', ''10.10'', ''14.55'', ''19.95'', ''19.95'']"

text \<open>A Date row whose numbers give non-positive durations.\<close>

definition negative_date :: "string list" where
  "negative_date = [''Date'', ''1'', ''-5'', ''3'', ''-7'']"

definition negative_pending :: perf where
  "negative_pending = empty_dict\<lparr>Athlete := Null, Meet_Info := Null, Date := Has ''1'',
     Split_50m := Has 1, Split_100m := Has (- 5), Split_150m := Has 3,
     Split_200m := Has (- 7), Time := Has (- 7), Lane_Place := Null, Source := Null\<rparr>"

definition negative_record :: perf where
  "negative_record = negative_pending\<lparr>Seg_0_100m := Has (- 5), Vel_0_100m := Null,
     Seg_100_200m := Has (- 2), Vel_100_200m := Null, Differential := Has 3,
     Ath_Mt_Strd := Has ''None_None''\<rparr>"

section \<open>Flushing\<close>

lemma flush_pending [simp]: "pending (flush st) = empty_dict"
  by (simp add: flush_def Let_def)

lemma flush_context [simp]:
  "current_athlete (flush st) = current_athlete st"
  "current_meet (flush st) = current_meet st"
  "current_source (flush st) = current_source st"
  by (simp_all add: flush_def Let_def)

lemma flush_empty: "pending st = empty_dict \<Longrightarrow> flush st = st"
  by (simp add: flush_def)

text \<open>
  Claim C9. Two flushes in a row, with no row in between, append at most one record:
  a flush leaves the accumulator empty, a flush on an empty accumulator changes nothing,
  and so the second flush changes nothing.
\<close>

theorem flush_idempotent:
  "flush (flush st) = flush st \<and>
   pending (flush st) = empty_dict \<and>
   (pending st = empty_dict \<longrightarrow> flush st = st) \<and>
   length (records (flush (flush st))) \<le> length (records st) + 1"
proof -
  have twice: "flush (flush st) = flush st"
    by (rule flush_empty) simp
  have len: "length (records (flush st)) \<le> length (records st) + 1"
    by (simp add: flush_def Let_def)
  show ?thesis
    using twice len by (simp add: flush_empty)
qed

theorem flush_idempotent_witness:
  "pending init_state = empty_dict \<and>
   flush init_state = init_state \<and>
   flush (flush init_state) = flush init_state \<and>
   length (records (flush (flush init_state))) \<le> length (records init_state) + 1"
  using flush_idempotent [of init_state] by (simp add: init_state_def)

section \<open>Evaluating the definitions on given cells\<close>

lemma char_of_nat_bits:
  "char_of (n::nat) = Char (odd n) (odd (n div 2)) (odd (n div 4)) (odd (n div 8))
     (odd (n div 16)) (odd (n div 32)) (odd (n div 64)) (odd (n div 128))"
  by (simp add: char_of_def bit_iff_odd)

lemmas norm_defs = norm_cell_def strip_def strip_char_def replace_nbsp_def isspace_def
lemmas float_defs = parse_float_def upper_def upper_char_def re_sub_non_numeric_def keep_char_def
  is_digit09_def py_float_def digits_val_def digit_val_def char_of_nat_bits
lemmas token_defs = lower_def lower_char_def char_of_nat_bits

lemma cells_norm:
  "norm_cell '''' = ''''"
  "norm_cell ''Lausanne Diamond League - 200m'' = ''Lausanne Diamond League - 200m''"
  "norm_cell ''Date'' = ''Date''"
  "norm_cell ''14 JUN 2024'' = ''14 JUN 2024''"
  "norm_cell ''Time'' = ''Time''"
  "norm_cell ''5.82'' = ''5.82''"
  "norm_cell ''10.10'' = ''10.10''"
  "norm_cell ''14.55'' = ''14.55''"
  "norm_cell ''19.95'' = ''19.95''"
  by (simp_all add: norm_defs)

lemma cells_lower:
  "lower '''' = ''''"
  "lower ''Lausanne Diamond League - 200m'' = ''lausanne diamond league - 200m''"
  "lower ''Date'' = ''date''"
  "lower ''14 JUN 2024'' = ''14 jun 2024''"
  "lower ''Time'' = ''time''"
  "lower ''5.82'' = ''5.82''"
  "lower ''10.10'' = ''10.10''"
  "lower ''14.55'' = ''14.55''"
  "lower ''19.95'' = ''19.95''"
  by (simp_all add: token_defs)

lemma tokens_lower:
  "lower ''date'' = ''date''"
  "lower ''time'' = ''time''"
  "lower ''reaction time'' = ''reaction time''"
  "lower ''wind'' = ''wind''"
  "lower ''velocity'' = ''velocity''"
  by (simp_all add: token_defs)

lemma cells_float:
  "parse_float '''' = None"
  "parse_float ''Date'' = None"
  "parse_float ''14 JUN 2024'' = Some 142024"
  "parse_float ''Time'' = None"
  "parse_float ''5.82'' = Some 5.82"
  "parse_float ''10.10'' = Some 10.10"
  "parse_float ''14.55'' = Some 14.55"
  "parse_float ''19.95'' = Some 19.95"
  by (simp_all add: cells_norm float_defs Let_def)

section \<open>The Lausanne scenario\<close>

lemma lausanne_normalised:
  "map norm_cell lausanne_meet = lausanne_meet"
  "map norm_cell lausanne_date = lausanne_date"
  by (simp_all add: lausanne_meet_def lausanne_date_def cells_norm)

lemma lausanne_splits:
  "extract_splits lausanne_date =
     \<lparr>s50 = Some 5.82, s100 = Some 10.10, s150 = Some 14.55, s200 = Some 19.95,
      time_val = Some 19.95\<rparr>"
  by (simp add: lausanne_date_def extract_splits_def strategy_A_def strategy_B_def
        numeric_cells_def map_filter_simps cells_norm cells_lower tokens_lower cells_float Let_def)

lemma lausanne_step1: "process_row init_state lausanne_meet = Inr lausanne_st1"
proof -
  have trim: "trim_trailing lausanne_meet = lausanne_meet"
    by (simp add: lausanne_meet_def trim_trailing_def)
  have ath: "\<not> looks_like_athlete (hd lausanne_meet)"
    by (simp add: lausanne_meet_def looks_like_athlete_def cells_norm)
  have meet: "is_meet_line lausanne_meet"
    by (simp add: lausanne_meet_def cells_norm sublist_code)
  have ne: "lausanne_meet \<noteq> []"
    by (simp add: lausanne_meet_def)
  have "meet_line init_state lausanne_meet = lausanne_st1"
    by (simp add: lausanne_meet_def meet_line_def cells_norm truthy_def lausanne_st1_def)
  then show ?thesis
    by (simp add: process_row_def trim ath meet ne)
qed

lemma lausanne_step2: "process_row lausanne_st1 lausanne_date = Inr lausanne_st2"
proof -
  have trim: "trim_trailing lausanne_date = lausanne_date"
    by (simp add: lausanne_date_def trim_trailing_def)
  have ath: "\<not> looks_like_athlete (hd lausanne_date)"
    by (simp add: lausanne_date_def looks_like_athlete_def cells_norm)
  have meet: "\<not> is_meet_line lausanne_date"
    by (simp add: lausanne_date_def cells_norm)
  have src: "\<not> is_source_text (join_comma lausanne_date)"
    by (simp add: lausanne_date_def is_source_text_def sublist_code)
  have d: "find_token_idx lausanne_date ''date'' = Some 0"
    by (simp add: lausanne_date_def cells_norm cells_lower tokens_lower)
  have t: "find_token_idx lausanne_date ''time'' = Some 3"
    by (simp add: lausanne_date_def cells_norm cells_lower tokens_lower)
  have lane: "find (\<lambda>c. CHR ''/'' \<in> set c) (drop 4 lausanne_date) = None"
    by (simp add: lausanne_date_def)
  have dt: "first_nonempty_after lausanne_date 0 = Some ''14 JUN 2024''"
    by (simp add: lausanne_date_def first_nonempty_after_def cells_norm)
  have ne: "lausanne_date \<noteq> []"
    by (simp add: lausanne_date_def)
  have "date_row lausanne_st1 lausanne_date 0 = lausanne_st2"
    by (simp add: date_row_def t lane dt lausanne_splits flush_empty lausanne_st1_def
          lausanne_st2_def lausanne_pending_def init_state_def of_opt_def Let_def)
  then show ?thesis
    by (simp add: process_row_def trim ath meet src d ne)
qed

lemma lausanne_flush:
  "flush lausanne_st2 = lausanne_st1\<lparr>records := [lausanne_record]\<rparr>"
  by (simp add: flush_def lausanne_st2_def lausanne_st1_def lausanne_record_def
        lausanne_pending_def init_state_def empty_dict_def compute_derived_def get_def
        truthy_def round2_def round_half_even_def ath_mt_strd_def fmt_get_def strip_char_def
        Let_def)

lemma lausanne_run: "run [lausanne_meet, lausanne_date] = Inr [lausanne_record]"
  by (simp add: run_def lausanne_normalised lausanne_step1 lausanne_step2 lausanne_flush)

text \<open>
  Claim C4. The meet row sets the Meet context; the Date row then opens a record with
  the splits 5.82, 10.10, 14.55, 19.95 and the Time 19.95; flushing it gives exactly one
  record, with 0-100m = 10.10, Vel_0_100m = 9.90, 100-200m = 9.85 and
  Vel_100_200m = 10.15.
\<close>

theorem lausanne_scenario:
  "process_row init_state (map norm_cell lausanne_meet) = Inr lausanne_st1 \<and>
   current_meet lausanne_st1 = Some ''Lausanne Diamond League - 200m'' \<and>
   process_row lausanne_st1 (map norm_cell lausanne_date) = Inr lausanne_st2 \<and>
   Split_50m (pending lausanne_st2) = Has 5.82 \<and>
   Split_100m (pending lausanne_st2) = Has 10.10 \<and>
   Split_150m (pending lausanne_st2) = Has 14.55 \<and>
   Split_200m (pending lausanne_st2) = Has 19.95 \<and>
   Time (pending lausanne_st2) = Has 19.95 \<and>
   records (flush lausanne_st2) = [lausanne_record] \<and>
   run [lausanne_meet, lausanne_date] = Inr [lausanne_record] \<and>
   Seg_0_100m lausanne_record = Has 10.10 \<and>
   Vel_0_100m lausanne_record = Has 9.90 \<and>
   Seg_100_200m lausanne_record = Has 9.85 \<and>
   Vel_100_200m lausanne_record = Has 10.15"
proof -
  have fields:
    "Split_50m (pending lausanne_st2) = Has 5.82"
    "Split_100m (pending lausanne_st2) = Has 10.10"
    "Split_150m (pending lausanne_st2) = Has 14.55"
    "Split_200m (pending lausanne_st2) = Has 19.95"
    "Time (pending lausanne_st2) = Has 19.95"
    by (simp_all add: lausanne_st2_def lausanne_pending_def)
  have derived:
    "Seg_0_100m lausanne_record = Has 10.10"
    "Vel_0_100m lausanne_record = Has 9.90"
    "Seg_100_200m lausanne_record = Has 9.85"
    "Vel_100_200m lausanne_record = Has 10.15"
    by (simp_all add: lausanne_record_def)
  have meet: "current_meet lausanne_st1 = Some ''Lausanne Diamond League - 200m''"
    by (simp add: lausanne_st1_def)
  show ?thesis
    using fields derived meet
    by (simp add: lausanne_normalised lausanne_step1 lausanne_step2 lausanne_flush lausanne_run)
qed

section \<open>Derived velocities\<close>

lemma round_half_even_nonneg: "0 \<le> x \<Longrightarrow> 0 \<le> round_half_even x"
  by (simp add: round_half_even_def Let_def)

lemma round2_nonneg: "0 \<le> x \<Longrightarrow> 0 \<le> round2 x"
  by (simp add: round2_def round_half_even_nonneg)

lemma velocity_nonneg: "0 < d \<Longrightarrow> 0 \<le> round2 (100 / d)"
  by (rule round2_nonneg) simp

lemma no_derived_empty [simp]: "no_derived empty_dict"
  by (simp add: no_derived_def empty_dict_def)

lemma compute_derived_ok: "no_derived p \<Longrightarrow> velocities_ok (compute_derived p)"
  by (auto simp: no_derived_def velocities_ok_def compute_derived_def Let_def get_def
                 velocity_nonneg
           split: option.splits slot.splits)

lemma velocities_ok_key [simp]: "velocities_ok (p\<lparr>Ath_Mt_Strd := k\<rparr>) = velocities_ok p"
  by (simp add: velocities_ok_def split: option.splits)

lemma velocities_ok_source [simp]: "velocities_ok (p\<lparr>Source := k\<rparr>) = velocities_ok p"
  by (simp add: velocities_ok_def split: option.splits)

lemma flush_inv: "pass_inv st \<Longrightarrow> pass_inv (flush st)"
  by (simp add: pass_inv_def flush_def Let_def compute_derived_ok)

lemma pass_inv_context [simp]:
  "pass_inv (st\<lparr>current_athlete := a\<rparr>) = pass_inv st"
  "pass_inv (st\<lparr>current_meet := m\<rparr>) = pass_inv st"
  "pass_inv (st\<lparr>current_source := s\<rparr>) = pass_inv st"
  by (simp_all add: pass_inv_def)

lemma athlete_header_inv: "pass_inv st \<Longrightarrow> pass_inv (athlete_header st row)"
  by (simp add: athlete_header_def flush_inv)

lemma meet_line_inv: "pass_inv st \<Longrightarrow> pass_inv (meet_line st row)"
  by (simp add: meet_line_def Let_def split: option.splits)

lemma standalone_source_inv: "pass_inv st \<Longrightarrow> pass_inv (standalone_source st row)"
  by (simp add: standalone_source_def Let_def)

lemma date_row_inv:
  assumes "pass_inv st"
  shows "pass_inv (date_row st row d)"
proof -
  from assms have "pass_inv (flush st)" by (rule flush_inv)
  then show ?thesis
    by (simp add: date_row_def Let_def pass_inv_def no_derived_def empty_dict_def)
qed

lemma reaction_time_row_inv: "pass_inv st \<Longrightarrow> pass_inv (reaction_time_row st row i)"
  by (simp add: reaction_time_row_def Let_def pass_inv_def no_derived_def)

lemma wind_row_inv: "pass_inv st \<Longrightarrow> wind_row st row i = Inr st' \<Longrightarrow> pass_inv st'"
  by (auto simp: wind_row_def Let_def pass_inv_def no_derived_def
           split: option.splits sum.splits if_splits)

lemma process_row_inv: "pass_inv st \<Longrightarrow> process_row st row = Inr st' \<Longrightarrow> pass_inv st'"
  by (auto simp: process_row_def Let_def athlete_header_inv meet_line_inv
                 standalone_source_inv date_row_inv reaction_time_row_inv
           split: if_splits option.splits dest: wind_row_inv)

lemma process_rows_inv: "pass_inv st \<Longrightarrow> process_rows st rows = Inr st' \<Longrightarrow> pass_inv st'"
proof (induction rows arbitrary: st)
  case Nil
  then show ?case by simp
next
  case (Cons row rows)
  then show ?case
    by (auto split: sum.splits dest: process_row_inv)
qed

lemma init_inv: "pass_inv init_state"
  by (simp add: pass_inv_def init_state_def)

lemma run_velocities_ok:
  assumes "run rows = Inr recs"
  shows "list_all velocities_ok recs"
proof -
  from assms obtain st where st: "process_rows init_state (map (map norm_cell) rows) = Inr st"
    and recs: "recs = records (flush st)"
    by (auto simp: run_def split: sum.splits)
  from init_inv st have "pass_inv st" by (rule process_rows_inv)
  then have "pass_inv (flush st)" by (rule flush_inv)
  with recs show ?thesis by (simp add: pass_inv_def)
qed

subsection \<open>A record whose velocities round to zero\<close>

lemma slow_norm:
  "norm_cell ''1'' = ''1''"
  "norm_cell ''100000'' = ''100000''"
  "norm_cell ''150000'' = ''150000''"
  "norm_cell ''200000'' = ''200000''"
  by (simp_all add: norm_defs)

lemma slow_lower:
  "lower ''1'' = ''1''"
  "lower ''100000'' = ''100000''"
  "lower ''150000'' = ''150000''"
  "lower ''200000'' = ''200000''"
  by (simp_all add: token_defs)

lemma slow_float:
  "parse_float ''1'' = Some 1"
  "parse_float ''100000'' = Some 100000"
  "parse_float ''150000'' = Some 150000"
  "parse_float ''200000'' = Some 200000"
  by (simp_all add: slow_norm float_defs Let_def)

lemma slow_splits:
  "extract_splits slow_date =
     \<lparr>s50 = Some 1, s100 = Some 100000, s150 = Some 150000, s200 = Some 200000,
      time_val = Some 200000\<rparr>"
  by (simp add: slow_date_def extract_splits_def strategy_A_def strategy_B_def no_splits_def
        numeric_cells_def map_filter_simps cells_norm cells_lower tokens_lower cells_float
        slow_norm slow_lower slow_float Let_def)

lemma slow_step: "process_row init_state slow_date = Inr (init_state\<lparr>pending := slow_pending\<rparr>)"
proof -
  have trim: "trim_trailing slow_date = slow_date"
    by (simp add: slow_date_def trim_trailing_def)
  have ath: "\<not> looks_like_athlete (hd slow_date)"
    by (simp add: slow_date_def looks_like_athlete_def cells_norm)
  have meet: "\<not> is_meet_line slow_date"
    by (simp add: slow_date_def cells_norm)
  have src: "\<not> is_source_text (join_comma slow_date)"
    by (simp add: slow_date_def is_source_text_def sublist_code)
  have d: "find_token_idx slow_date ''date'' = Some 0"
    by (simp add: slow_date_def cells_norm cells_lower tokens_lower)
  have t: "find_token_idx slow_date ''time'' = None"
    by (simp add: slow_date_def cells_norm cells_lower tokens_lower slow_norm slow_lower)
  have dt: "first_nonempty_after slow_date 0 = Some ''1''"
    by (simp add: slow_date_def first_nonempty_after_def slow_norm)
  have ne: "slow_date \<noteq> []"
    by (simp add: slow_date_def)
  have "date_row init_state slow_date 0 = init_state\<lparr>pending := slow_pending\<rparr>"
    by (simp add: date_row_def t dt slow_splits flush_empty init_state_def slow_pending_def
          of_opt_def Let_def)
  then show ?thesis
    by (simp add: process_row_def trim ath meet src d ne)
qed

lemma slow_flush: "flush (init_state\<lparr>pending := slow_pending\<rparr>) = init_state\<lparr>records := [slow_record]\<rparr>"
  by (simp add: flush_def init_state_def slow_pending_def slow_record_def empty_dict_def
        compute_derived_def get_def truthy_def round2_def round_half_even_def
        ath_mt_strd_def fmt_get_def strip_char_def Let_def)

lemma slow_run: "run [slow_date] = Inr [slow_record]"
proof -
  have n: "map norm_cell slow_date = slow_date"
    by (simp add: slow_date_def cells_norm slow_norm)
  show ?thesis
    by (simp add: run_def n slow_step slow_flush)
qed

text \<open>
  Claim C8, as stated, fails: a derived velocity can be present without being positive.
  With a 100m split of 100000 and a 200m split of 200000 both segment durations are
  positive, and both velocities are 100 / 100000 rounded to two decimals, which is 0.
\<close>

theorem velocity_zero_counterexample:
  "run [slow_date] = Inr [slow_record] \<and>
   get (Split_100m slow_record) = Some 100000 \<and>
   get (Split_200m slow_record) = Some 200000 \<and>
   (0::real) < 100000 \<and> (0::real) < 200000 - 100000 \<and>
   Vel_0_100m slow_record = Has 0 \<and>
   Vel_100_200m slow_record = Has 0"
  by (simp add: slow_run) (simp add: slow_record_def slow_pending_def get_def)

section \<open>The order of the branches\<close>

lemma find_token_idx_None:
  "find_token_idx row token = None \<longleftrightarrow> \<not> row_contains_token row token"
  by (induction row) (auto simp: row_contains_token_def)

lemma process_row_dispatch:
  "process_row st row0 = dispatch (branch_taken (trim_trailing row0)) st (trim_trailing row0)"
proof -
  define row where "row = trim_trailing row0"
  have date: "row_contains_token row ''date'' \<longleftrightarrow> find_token_idx row ''date'' \<noteq> None"
    and rt: "row_contains_token row ''reaction time'' \<longleftrightarrow>
             find_token_idx row ''reaction time'' \<noteq> None"
    and wind: "row_contains_token row ''wind'' \<longleftrightarrow> find_token_idx row ''wind'' \<noteq> None"
    by (simp_all add: find_token_idx_None)
  have "process_row st row0 = dispatch (branch_taken row) st row"
    unfolding process_row_def branch_taken_def dispatch_def Let_def row_def [symmetric] date rt wind
    by (auto split: option.splits)
  then show ?thesis by (simp add: row_def)
qed







section \<open>The context fields\<close>







section \<open>More sample rows\<close>

lemma more_norm:
  "norm_cell ''reaction time'' = ''reaction time''"
  "norm_cell ''0.142'' = ''0.142''"
  "norm_cell ''Swiss Timing'' = ''Swiss Timing''"
  "norm_cell ''Bolt, Usain (JAM) (1986)'' = ''Bolt, Usain (JAM) (1986)''"
  by (simp_all add: norm_defs)

lemma more_lower:
  "lower ''reaction time'' = ''reaction time''"
  "lower ''0.142'' = ''0.142''"
  "lower ''Swiss Timing'' = ''swiss timing''"
  by (simp_all add: token_defs)

lemma more_float:
  "parse_float ''0.142'' = Some 0.142"
  by (simp_all add: more_norm float_defs Let_def)

lemma rt_row_facts:
  "trim_trailing rt_row = rt_row"
  "map norm_cell rt_row = rt_row"
  "branch_taken rt_row = ReactionTimeRow"
  "find_token_idx rt_row ''reaction time'' = Some 0"
  "first_nonempty_after rt_row 0 = Some ''0.142''"
  by (simp_all add: rt_row_def trim_trailing_def branch_taken_def looks_like_athlete_def
        is_source_text_def sublist_code row_contains_token_def first_nonempty_after_def
        more_norm more_lower tokens_lower)

lemma rt_row_step:
  "process_row init_state rt_row = Inr (init_state\<lparr>pending := rt_only_pending\<rparr>)"
  by (simp add: process_row_dispatch rt_row_facts dispatch_def reaction_time_row_def
        truthy_def more_float of_opt_def init_state_def rt_only_pending_def)

lemma rt_row_flush:
  "flush (init_state\<lparr>pending := rt_only_pending\<rparr>) =
     init_state\<lparr>records := [rt_only_record]\<rparr>"
  by (simp add: flush_def init_state_def rt_only_record_def rt_only_pending_def empty_dict_def
        compute_derived_def get_def truthy_def ath_mt_strd_def fmt_get_def strip_char_def Let_def)

lemma rt_row_run: "run [rt_row] = Inr [rt_only_record]"
  by (simp add: run_def rt_row_facts rt_row_step rt_row_flush)





lemma bolt_header_facts:
  "trim_trailing bolt_header = bolt_header"
  "map norm_cell bolt_header = bolt_header"
  "hd bolt_header = ''Bolt, Usain (JAM) (1986)''"
  "branch_taken bolt_header = AthleteMarker"
  by (simp_all add: bolt_header_def trim_trailing_def branch_taken_def looks_like_athlete_def
        more_norm is_upper_AZ_def is_digit09_def isspace_def)

lemma bolt_header_step: "process_row init_state bolt_header = Inr bolt_st"
  by (simp add: process_row_dispatch bolt_header_facts dispatch_def athlete_header_def
        flush_empty init_state_def bolt_st_def)

lemma bare_date_facts:
  "trim_trailing bare_date = bare_date"
  "map norm_cell bare_date = bare_date"
  "branch_taken bare_date = DateRow"
  "find_token_idx bare_date ''date'' = Some 0"
  "find_token_idx bare_date ''time'' = None"
  "first_nonempty_after bare_date 0 = Some ''14 JUN 2024''"
  "numeric_cells bare_date = [142024]"
  by (simp_all add: bare_date_def trim_trailing_def branch_taken_def looks_like_athlete_def
        is_source_text_def sublist_code row_contains_token_def first_nonempty_after_def
        numeric_cells_def map_filter_simps cells_norm cells_lower tokens_lower cells_float)

lemma bare_date_splits: "extract_splits bare_date = no_splits"
  by (simp add: extract_splits_def strategy_A_def strategy_B_def bare_date_facts no_splits_def)

lemma bare_date_step: "process_row bolt_st bare_date = Inr (bolt_st\<lparr>pending := bolt_pending\<rparr>)"
  by (simp add: process_row_dispatch bare_date_facts dispatch_def date_row_def
        bare_date_splits no_splits_def flush_empty bolt_st_def init_state_def bolt_pending_def
        of_opt_def)

lemma bolt_flush:
  "flush (bolt_st\<lparr>pending := bolt_pending\<rparr>) = bolt_st\<lparr>records := [bolt_record]\<rparr>"
  by (simp add: flush_def bolt_st_def init_state_def bolt_pending_def bolt_record_def
        empty_dict_def compute_derived_def get_def truthy_def ath_mt_strd_def fmt_get_def
        strip_char_def Let_def)

lemma bolt_run: "run [bolt_header, bare_date] = Inr [bolt_record]"
  by (simp add: run_def bolt_header_facts bare_date_facts bolt_header_step bare_date_step
        bolt_flush)


section \<open>Reaction time rows\<close>

lemma reaction_time_stored:
  assumes "first_nonempty_after row i = Some v" and "v \<noteq> []"
  shows "reaction_time_row st row i = st\<lparr>pending := (pending st)\<lparr>RT := of_opt (parse_float v)\<rparr>\<rparr>"
  using assms by (simp add: reaction_time_row_def truthy_def)

text \<open>
  A row that reaches the reaction time branch stores the parsed value of the first
  non-empty cell after the anchor in the accumulator, whatever the accumulator holds.
\<close>

lemma reaction_time_processed:
  assumes "branch_taken (trim_trailing row0) = ReactionTimeRow"
    and "find_token_idx (trim_trailing row0) ''reaction time'' = Some i"
    and "first_nonempty_after (trim_trailing row0) i = Some v"
  shows "process_row st row0 =
     Inr (st\<lparr>pending := (pending st)\<lparr>RT := of_opt (parse_float v)\<rparr>\<rparr>)"
proof -
  from assms(3) have "norm_cell v \<noteq> []"
    by (auto simp: first_nonempty_after_def find_Some_iff)
  then have "v \<noteq> []"
    by (auto simp: norm_defs)
  with assms show ?thesis
    by (simp add: process_row_dispatch dispatch_def reaction_time_stored)
qed

lemma rt_only_pending_nonempty: "rt_only_pending \<noteq> empty_dict"
proof
  assume "rt_only_pending = empty_dict"
  then have "RT rt_only_pending = RT empty_dict" by simp
  then show False by (simp add: rt_only_pending_def empty_dict_def)
qed

lemma run_no_rows: "run [] = Inr []"
  by (simp add: run_def flush_empty init_state_def)

text \<open>
  Claim C1 says that a reaction time row processed while no record is open is a no-op
  and never adds a record to the output. In the source the branch stores the value in
  \<^verbatim>\<open>pending\<close> without looking whether a record is open: from the initial state the row
  \<^verbatim>\<open>reaction time, 0.142\<close> leaves a dictionary that holds only RT, and the flush at the
  end of the input emits it as a record on its own.
\<close>

theorem reaction_time_without_record:
  "pending init_state = empty_dict \<and>
   process_row init_state (map norm_cell rt_row) = Inr (init_state\<lparr>pending := rt_only_pending\<rparr>) \<and>
   rt_only_pending \<noteq> empty_dict \<and>
   run [] = Inr [] \<and>
   run [rt_row] = Inr [rt_only_record] \<and>
   RT rt_only_record = Has 0.142 \<and>
   Athlete rt_only_record = Missing \<and>
   Date rt_only_record = Missing"
proof -
  have "RT rt_only_record = Has 0.142" "Athlete rt_only_record = Missing"
    "Date rt_only_record = Missing"
    by (simp_all add: rt_only_record_def rt_only_pending_def empty_dict_def)
  then show ?thesis
    by (simp add: rt_row_facts rt_row_step rt_row_run run_no_rows rt_only_pending_nonempty)
       (simp add: init_state_def)
qed

section \<open>Source lines come before reaction time rows\<close>



section \<open>Context fields on sample rows\<close>


section \<open>The composite key\<close>

text \<open>
  Claim C7 says that an empty component of the key brings neither text nor a separator.
  In the source an unset Meet context is stored as \<^verbatim>\<open>None\<close> by the Date row and the
  f-string renders it as the text \<^verbatim>\<open>None\<close>: for an athlete header followed by a Date
  row, with no meet line and no stride rate, the key is the athlete followed by
  \<^verbatim>\<open>_None\<close>.
\<close>

theorem key_with_unset_meet:
  "run [bolt_header, bare_date] = Inr [bolt_record] \<and>
   Athlete bolt_record = Has ''Bolt, Usain (JAM) (1986)'' \<and>
   Meet_Info bolt_record = Null \<and>
   StrideRate bolt_record = Missing \<and>
   Ath_Mt_Strd bolt_record = Has ''Bolt, Usain (JAM) (1986)_None''"
  by (simp add: bolt_run) (simp add: bolt_record_def bolt_pending_def empty_dict_def)

section \<open>Split extraction\<close>

lemma strategy_A_absent:
  "s50 (strategy_A row t_idx) = None \<longleftrightarrow>
     (t_idx = None \<or> length (numeric_cells (drop (the t_idx + 1) row)) < 4)"
  by (auto simp: strategy_A_def no_splits_def Let_def split: option.splits)

lemma extract_splits_time_val:
  "time_val (extract_splits row) = None \<Longrightarrow> s200 (extract_splits row) = None"
  by (auto simp: extract_splits_def strategy_A_def strategy_B_def no_splits_def Let_def
           split: option.splits if_splits)

text \<open>
  Claim C3. With a \<^verbatim>\<open>time\<close> anchor followed by at least five numeric cells, the first
  four are the splits and the fifth the Official Time; with exactly four, they are the
  splits and the Official Time is the 200m split. The 50m split is still absent exactly
  when there is no anchor or fewer than four numeric cells follow it; then the numeric
  cells of the whole row are used: with at least four, the first four are the splits and
  the fifth, if there is one, the Official Time, else the 200m split. The record opened by
  the Date row holds these values.
\<close>

theorem two_tier_splits:
  assumes "t_idx = find_token_idx row ''time''"
    and "after = (case t_idx of None \<Rightarrow> [] | Some t \<Rightarrow> numeric_cells (drop (t + 1) row))"
    and "every = numeric_cells row"
    and "sp = extract_splits row"
  shows
   "(t_idx \<noteq> None \<and> 5 \<le> length after \<longrightarrow>
       sp = \<lparr>s50 = Some (after ! 0), s100 = Some (after ! 1), s150 = Some (after ! 2),
             s200 = Some (after ! 3), time_val = Some (after ! 4)\<rparr>) \<and>
    (t_idx \<noteq> None \<and> length after = 4 \<longrightarrow>
       sp = \<lparr>s50 = Some (after ! 0), s100 = Some (after ! 1), s150 = Some (after ! 2),
             s200 = Some (after ! 3), time_val = Some (after ! 3)\<rparr>) \<and>
    (s50 (strategy_A row t_idx) = None \<longleftrightarrow> t_idx = None \<or> length after < 4) \<and>
    ((t_idx = None \<or> length after < 4) \<and> 5 \<le> length every \<longrightarrow>
       sp = \<lparr>s50 = Some (every ! 0), s100 = Some (every ! 1), s150 = Some (every ! 2),
             s200 = Some (every ! 3), time_val = Some (every ! 4)\<rparr>) \<and>
    ((t_idx = None \<or> length after < 4) \<and> length every = 4 \<longrightarrow>
       sp = \<lparr>s50 = Some (every ! 0), s100 = Some (every ! 1), s150 = Some (every ! 2),
             s200 = Some (every ! 3), time_val = Some (every ! 3)\<rparr>) \<and>
    ((t_idx = None \<or> length after < 4) \<and> length every < 4 \<longrightarrow> sp = no_splits) \<and>
    Split_50m (pending (date_row st row d)) = of_opt (s50 sp) \<and>
    Split_100m (pending (date_row st row d)) = of_opt (s100 sp) \<and>
    Split_150m (pending (date_row st row d)) = of_opt (s150 sp) \<and>
    Split_200m (pending (date_row st row d)) = of_opt (s200 sp) \<and>
    Time (pending (date_row st row d)) = of_opt (time_val sp)"
proof -
  have primary5: "t_idx \<noteq> None \<and> 5 \<le> length after \<longrightarrow>
       sp = \<lparr>s50 = Some (after ! 0), s100 = Some (after ! 1), s150 = Some (after ! 2),
             s200 = Some (after ! 3), time_val = Some (after ! 4)\<rparr>"
    using assms by (auto simp: extract_splits_def strategy_A_def strategy_B_def Let_def)
  have primary4: "t_idx \<noteq> None \<and> length after = 4 \<longrightarrow>
       sp = \<lparr>s50 = Some (after ! 0), s100 = Some (after ! 1), s150 = Some (after ! 2),
             s200 = Some (after ! 3), time_val = Some (after ! 3)\<rparr>"
    using assms by (auto simp: extract_splits_def strategy_A_def strategy_B_def Let_def)
  have absent: "s50 (strategy_A row t_idx) = None \<longleftrightarrow> t_idx = None \<or> length after < 4"
    using assms(2) by (cases t_idx) (simp_all add: strategy_A_absent)
  have fallback5: "(t_idx = None \<or> length after < 4) \<and> 5 \<le> length every \<longrightarrow>
       sp = \<lparr>s50 = Some (every ! 0), s100 = Some (every ! 1), s150 = Some (every ! 2),
             s200 = Some (every ! 3), time_val = Some (every ! 4)\<rparr>"
    using assms
    by (cases "find_token_idx row ''time''")
       (auto simp: extract_splits_def strategy_A_def strategy_B_def no_splits_def Let_def)
  have fallback4: "(t_idx = None \<or> length after < 4) \<and> length every = 4 \<longrightarrow>
       sp = \<lparr>s50 = Some (every ! 0), s100 = Some (every ! 1), s150 = Some (every ! 2),
             s200 = Some (every ! 3), time_val = Some (every ! 3)\<rparr>"
    using assms
    by (cases "find_token_idx row ''time''")
       (auto simp: extract_splits_def strategy_A_def strategy_B_def no_splits_def Let_def)
  have none: "(t_idx = None \<or> length after < 4) \<and> length every < 4 \<longrightarrow> sp = no_splits"
    using assms
    by (cases "find_token_idx row ''time''")
       (auto simp: extract_splits_def strategy_A_def strategy_B_def no_splits_def Let_def)
  have fields:
    "Split_50m (pending (date_row st row d)) = of_opt (s50 sp)"
    "Split_100m (pending (date_row st row d)) = of_opt (s100 sp)"
    "Split_150m (pending (date_row st row d)) = of_opt (s150 sp)"
    "Split_200m (pending (date_row st row d)) = of_opt (s200 sp)"
    using assms(4) by (simp_all add: date_row_def Let_def)
  have time: "Time (pending (date_row st row d)) = of_opt (time_val sp)"
    using assms(4) extract_splits_time_val [of row]
    by (cases "time_val (extract_splits row)") (simp_all add: date_row_def Let_def)
  show ?thesis
    using primary5 primary4 absent fallback5 fallback4 none fields time by blast
qed

lemma split_rows_time:
  "find_token_idx lausanne_date ''time'' = Some 3"
  "find_token_idx four_after_time ''time'' = Some 3"
  "find_token_idx five_no_time ''time'' = None"
  "find_token_idx slow_date ''time'' = None"
  "find_token_idx bare_date ''time'' = None"
  by (simp_all add: lausanne_date_def four_after_time_def five_no_time_def slow_date_def
        bare_date_def cells_norm cells_lower slow_norm slow_lower tokens_lower)

lemma split_rows_after:
  "numeric_cells (drop 4 lausanne_date) = [5.82, 10.10, 14.55, 19.95, 19.95]"
  "numeric_cells (drop 4 four_after_time) = [5.82, 10.10, 14.55, 19.95]"
  by (simp_all add: lausanne_date_def four_after_time_def numeric_cells_def map_filter_simps
        cells_float)

lemma split_rows_every:
  "numeric_cells five_no_time = [5.82, 10.10, 14.55, 19.95, 19.95]"
  "numeric_cells slow_date = [1, 100000, 150000, 200000]"
  "numeric_cells bare_date = [142024]"
  by (simp_all add: five_no_time_def slow_date_def bare_date_def numeric_cells_def
        map_filter_simps cells_float slow_float)

theorem two_tier_splits_witness:
  "find_token_idx lausanne_date ''time'' = Some 3 \<and>
   numeric_cells (drop 4 lausanne_date) = [5.82, 10.10, 14.55, 19.95, 19.95] \<and>
   extract_splits lausanne_date =
     \<lparr>s50 = Some 5.82, s100 = Some 10.10, s150 = Some 14.55, s200 = Some 19.95,
      time_val = Some 19.95\<rparr> \<and>
   find_token_idx four_after_time ''time'' = Some 3 \<and>
   numeric_cells (drop 4 four_after_time) = [5.82, 10.10, 14.55, 19.95] \<and>
   extract_splits four_after_time =
     \<lparr>s50 = Some 5.82, s100 = Some 10.10, s150 = Some 14.55, s200 = Some 19.95,
      time_val = Some 19.95\<rparr> \<and>
   find_token_idx five_no_time ''time'' = None \<and>
   numeric_cells five_no_time = [5.82, 10.10, 14.55, 19.95, 19.95] \<and>
   extract_splits five_no_time =
     \<lparr>s50 = Some 5.82, s100 = Some 10.10, s150 = Some 14.55, s200 = Some 19.95,
      time_val = Some 19.95\<rparr> \<and>
   find_token_idx slow_date ''time'' = None \<and>
   numeric_cells slow_date = [1, 100000, 150000, 200000] \<and>
   extract_splits slow_date =
     \<lparr>s50 = Some 1, s100 = Some 100000, s150 = Some 150000, s200 = Some 200000,
      time_val = Some 200000\<rparr> \<and>
   find_token_idx bare_date ''time'' = None \<and>
   numeric_cells bare_date = [142024] \<and>
   extract_splits bare_date = no_splits"
proof -
  have a: "extract_splits lausanne_date =
     \<lparr>s50 = Some 5.82, s100 = Some 10.10, s150 = Some 14.55, s200 = Some 19.95,
      time_val = Some 19.95\<rparr>"
    using two_tier_splits [OF refl refl refl refl, where row = lausanne_date and st = init_state and d = 0]
    by (simp add: split_rows_time split_rows_after)
  have b: "extract_splits four_after_time =
     \<lparr>s50 = Some 5.82, s100 = Some 10.10, s150 = Some 14.55, s200 = Some 19.95,
      time_val = Some 19.95\<rparr>"
    using two_tier_splits [OF refl refl refl refl, where row = four_after_time and st = init_state and d = 0]
    by (simp add: split_rows_time split_rows_after)
  have c: "extract_splits five_no_time =
     \<lparr>s50 = Some 5.82, s100 = Some 10.10, s150 = Some 14.55, s200 = Some 19.95,
      time_val = Some 19.95\<rparr>"
    using two_tier_splits [OF refl refl refl refl, where row = five_no_time and st = init_state and d = 0]
    by (simp add: split_rows_time split_rows_every)
  have d: "extract_splits slow_date =
     \<lparr>s50 = Some 1, s100 = Some 100000, s150 = Some 150000, s200 = Some 200000,
      time_val = Some 200000\<rparr>"
    using two_tier_splits [OF refl refl refl refl, where row = slow_date and st = init_state and d = 0]
    by (simp add: split_rows_time split_rows_every)
  have e: "extract_splits bare_date = no_splits"
    using two_tier_splits [OF refl refl refl refl, where row = bare_date and st = init_state and d = 0]
    by (simp add: split_rows_time split_rows_every)
  show ?thesis
    by (intro conjI split_rows_time split_rows_after split_rows_every a b c d e)
qed

section \<open>Numeric parsing\<close>

lemma keep_char_minus [simp]: "\<not> is_digit09 CHR ''-''" "\<not> is_digit09 CHR ''.''"
  by (simp_all add: is_digit09_def)

lemma py_float_accepts:
  assumes "py_float k = Inr v"
  shows "\<forall>c \<in> set (if k \<noteq> [] \<and> hd k = CHR ''-'' then tl k else k). is_digit09 c \<or> c = CHR ''.''"
proof -
  define body where "body = (if k \<noteq> [] \<and> hd k = CHR ''-'' then tl k else k)"
  define rest where "rest = dropWhile is_digit09 body"
  define fp where "fp = (if rest \<noteq> [] \<and> hd rest = CHR ''.'' then tl rest else rest)"
  from assms have ok: "(rest = [] \<or> hd rest = CHR ''.'') \<and> list_all is_digit09 fp"
    unfolding py_float_def Let_def body_def [symmetric] rest_def [symmetric] fp_def [symmetric]
    by (simp split: if_splits)
  have rest: "\<forall>c \<in> set rest. is_digit09 c \<or> c = CHR ''.''"
  proof (cases rest)
    case Nil
    then show ?thesis by simp
  next
    case (Cons r rs)
    with ok have r: "r = CHR ''.''" by simp
    with Cons have "fp = rs" by (simp add: fp_def)
    with ok have "list_all is_digit09 rs" by simp
    with Cons r show ?thesis by (auto simp: list_all_iff)
  qed
  have "body = takeWhile is_digit09 body @ rest"
    by (simp add: rest_def)
  then have "set body = set (takeWhile is_digit09 body) \<union> set rest"
    by (metis set_append)
  with rest have "\<forall>c \<in> set body. is_digit09 c \<or> c = CHR ''.''"
    by (auto dest: set_takeWhileD)
  then show ?thesis by (simp add: body_def)
qed

lemma py_float_inner_minus:
  assumes "CHR ''-'' \<in> set (tl k)"
  shows "py_float k = Inl ValueError"
proof (cases "py_float k")
  case (Inl e)
  then show ?thesis by (cases e) simp
next
  case (Inr v)
  from assms have "CHR ''-'' \<in> set (if k \<noteq> [] \<and> hd k = CHR ''-'' then tl k else k)"
    by (cases k) auto
  with py_float_accepts [OF Inr] show ?thesis by auto
qed

lemma py_float_short:
  "py_float [] = Inl ValueError"
  "py_float ''-'' = Inl ValueError"
  "py_float ''--'' = Inl ValueError"
  by (simp_all add: py_float_def)

lemma spec_strip_False:
  "spec_strip False s = filter (\<lambda>c. c \<noteq> CHR ''-'') (filter keep_char s)"
  by (induction s) (auto simp: keep_char_def)

lemma spec_strip_True:
  "spec_strip True s =
     (case filter keep_char s of [] \<Rightarrow> [] | c # cs \<Rightarrow> c # filter (\<lambda>c. c \<noteq> CHR ''-'') cs)"
  by (induction s) (auto simp: keep_char_def spec_strip_False)

lemma spec_strip_agrees:
  "spec_strip True s = filter keep_char s \<longleftrightarrow> CHR ''-'' \<notin> set (tl (filter keep_char s))"
  by (cases "filter keep_char s") (auto simp: spec_strip_True filter_id_conv)

lemma parse_float_eq:
  "parse_float cell =
     (if norm_cell cell = [] \<or> upper (norm_cell cell) \<in> {''NA'', ''NULL''} then None
      else (case py_float (filter keep_char (norm_cell cell)) of
              Inl e \<Rightarrow> None | Inr v \<Rightarrow> Some v))"
  by (auto simp: parse_float_def re_sub_non_numeric_def Let_def py_float_short)

text \<open>
  Claim C6, as stated, fails: the source keeps every minus sign, not only a leading one.
  In the cell \<^verbatim>\<open>1-2\<close> the minus sign is not leading; stripping it, as the claim has it,
  leaves \<^verbatim>\<open>12\<close>, which converts to 12, whereas the source converts \<^verbatim>\<open>1-2\<close>, fails and
  returns absent.
\<close>

theorem inner_minus_counterexample:
  "parse_float ''1-2'' = None \<and> spec_parse_number ''1-2'' = Some 12"
proof -
  have n: "norm_cell ''1-2'' = ''1-2''"
    by (simp add: norm_defs)
  have "parse_float ''1-2'' = None"
    by (simp add: n float_defs Let_def)
  moreover have "spec_parse_number ''1-2'' = Some 12"
    by (simp add: spec_parse_number_def n upper_def upper_char_def char_of_nat_bits
          is_digit09_def py_float_def digits_val_def digit_val_def Let_def)
  ultimately show ?thesis by simp
qed

text \<open>
  Claim C6, amended. \<^verbatim>\<open>parse_float\<close> never raises: it returns a number or absent. An
  empty cell and the literals NA and NULL, in any case, give absent. Otherwise every
  character that is not a digit, a decimal point or a minus sign is stripped, every minus
  sign being kept, and the result is converted, a conversion failure giving absent. So
  the function agrees with the wording of the specification on every cell whose kept
  characters have no minus sign after the first one, and gives absent on every other cell.
\<close>

theorem parse_float_characterisation:
  assumes "s = norm_cell cell" and "k = filter keep_char s"
  shows
   "(s = [] \<or> upper s \<in> {''NA'', ''NULL''} \<longrightarrow> parse_float cell = None) \<and>
    (s \<noteq> [] \<and> upper s \<notin> {''NA'', ''NULL''} \<longrightarrow>
       parse_float cell = (case py_float k of Inl e \<Rightarrow> None | Inr v \<Rightarrow> Some v)) \<and>
    (CHR ''-'' \<notin> set (tl k) \<longrightarrow> parse_float cell = spec_parse_number cell) \<and>
    (CHR ''-'' \<in> set (tl k) \<longrightarrow> parse_float cell = None)"
proof -
  have a: "s = [] \<or> upper s \<in> {''NA'', ''NULL''} \<longrightarrow> parse_float cell = None"
    using assms(1) by (simp add: parse_float_eq)
  have b: "s \<noteq> [] \<and> upper s \<notin> {''NA'', ''NULL''} \<longrightarrow>
       parse_float cell = (case py_float k of Inl e \<Rightarrow> None | Inr v \<Rightarrow> Some v)"
    using assms by (simp add: parse_float_eq)
  have c: "CHR ''-'' \<notin> set (tl k) \<longrightarrow> parse_float cell = spec_parse_number cell"
  proof
    assume "CHR ''-'' \<notin> set (tl k)"
    with assms(2) have "spec_strip True s = k" by (simp add: spec_strip_agrees)
    with assms show "parse_float cell = spec_parse_number cell"
      by (simp add: parse_float_eq spec_parse_number_def Let_def)
  qed
  have d: "CHR ''-'' \<in> set (tl k) \<longrightarrow> parse_float cell = None"
    using assms by (auto simp: parse_float_eq dest: py_float_inner_minus)
  from a b c d show ?thesis by blast
qed

theorem parse_float_characterisation_witness:
  "norm_cell '''' = [] \<and> parse_float '''' = None \<and>
   upper (norm_cell ''na'') \<in> {''NA'', ''NULL''} \<and> parse_float ''na'' = None \<and>
   norm_cell ''10.10'' \<noteq> [] \<and> upper (norm_cell ''10.10'') \<notin> {''NA'', ''NULL''} \<and>
   CHR ''-'' \<notin> set (tl (filter keep_char (norm_cell ''10.10''))) \<and>
   parse_float ''10.10'' = spec_parse_number ''10.10'' \<and>
   parse_float ''10.10'' =
     (case py_float (filter keep_char (norm_cell ''10.10'')) of
        Inl e \<Rightarrow> None | Inr v \<Rightarrow> Some v) \<and>
   CHR ''-'' \<in> set (tl (filter keep_char (norm_cell ''1-2''))) \<and>
   parse_float ''1-2'' = None"
proof -
  have n: "norm_cell '''' = []" "norm_cell ''na'' = ''na''" "norm_cell ''10.10'' = ''10.10''"
    "norm_cell ''1-2'' = ''1-2''"
    by (simp_all add: norm_defs)
  have u: "upper ''na'' = ''NA''" "upper ''10.10'' = ''10.10''"
    by (simp_all add: upper_def upper_char_def char_of_nat_bits)
  have k: "filter keep_char ''10.10'' = ''10.10''" "filter keep_char ''1-2'' = ''1-2''"
    by (simp_all add: keep_char_def is_digit09_def)
  have a: "parse_float '''' = None"
    using parse_float_characterisation [OF refl refl, of "''''"] by (simp add: n)
  have b: "parse_float ''na'' = None"
    using parse_float_characterisation [OF refl refl, of "''na''"] by (simp add: n u)
  note t = parse_float_characterisation [OF refl refl, of "''10.10''"]
  have c1: "parse_float ''10.10'' = spec_parse_number ''10.10''"
    using t by (simp add: n k del: filter.simps)
  have c2: "parse_float ''10.10'' =
        (case py_float (filter keep_char (norm_cell ''10.10'')) of
           Inl e \<Rightarrow> None | Inr v \<Rightarrow> Some v)"
    using t by (simp add: n u k del: filter.simps)
  have d: "parse_float ''1-2'' = None"
    using parse_float_characterisation [OF refl refl, of "''1-2''"] by (simp add: n k del: filter.simps)
  have m: "CHR ''-'' \<notin> set (tl (filter keep_char (norm_cell ''10.10'')))"
    "CHR ''-'' \<in> set (tl (filter keep_char (norm_cell ''1-2'')))"
    "norm_cell ''10.10'' \<noteq> []" "upper (norm_cell ''10.10'') \<notin> {''NA'', ''NULL''}"
    "upper (norm_cell ''na'') \<in> {''NA'', ''NULL''}"
    by (simp_all add: n u k del: filter.simps)
  show ?thesis
    by (intro conjI n(1) a b c1 c2 d m)
qed

section \<open>Athlete markers\<close>

lemma not_space_paren [simp]:
  "\<not> isspace CHR ''(''" "\<not> isspace CHR '')''"
  by (simp_all add: isspace_def)

lemma isspace_replace: "isspace c \<Longrightarrow> isspace (if c = CHR 0xA0 then CHR '' '' else c)"
  by (simp add: isspace_def)

lemma upper_AZ_not_nbsp: "is_upper_AZ c \<Longrightarrow> c \<noteq> CHR 0xA0"
  by (auto simp: is_upper_AZ_def)

lemma digit09_not_nbsp: "is_digit09 c \<Longrightarrow> c \<noteq> CHR 0xA0"
  by (auto simp: is_digit09_def)

text \<open>A pattern at the head of a string is matched there.\<close>

lemma athlete_match_pattern:
  assumes "is_upper_AZ a" "is_upper_AZ b" "is_upper_AZ c" "list_all isspace ws"
    and "is_digit09 d1" "is_digit09 d2" "is_digit09 d3" "is_digit09 d4"
  shows "athlete_match_here
     ([CHR ''('', a, b, c, CHR '')''] @ ws @ [CHR ''('', d1, d2, d3, d4, CHR '')''] @ post)"
proof -
  from assms(4) have "dropWhile isspace (ws @ [CHR ''('', d1, d2, d3, d4, CHR '')''] @ post) =
      [CHR ''('', d1, d2, d3, d4, CHR '')''] @ post"
    by (simp add: dropWhile_append list_all_iff)
  with assms show ?thesis by simp
qed

lemma re_search_here: "athlete_match_here s \<Longrightarrow> re_search_athlete s"
  by (cases s) simp_all

lemma re_search_append: "athlete_match_here s \<Longrightarrow> re_search_athlete (pre @ s)"
  by (induction pre) (simp_all add: re_search_here)

text \<open>
  Stripping characters from both ends leaves a segment in place when the segment neither
  starts nor ends with a stripped character.
\<close>

lemma dropWhile_keeps:
  assumes "m \<noteq> []" and "\<not> P (hd m)"
  shows "\<exists>x'. dropWhile P (x @ m @ y) = x' @ m @ y"
proof (cases "\<forall>c \<in> set x. P c")
  case True
  from assms have "dropWhile P (m @ y) = m @ y" by (cases m) simp_all
  with True have "dropWhile P (x @ m @ y) = [] @ m @ y" by (simp add: dropWhile_append)
  then show ?thesis by blast
next
  case False
  then obtain e where "e \<in> set x" and "\<not> P e" by blast
  then have "dropWhile P (x @ m @ y) = dropWhile P x @ m @ y" by (rule dropWhile_append1)
  then show ?thesis by blast
qed

lemma strip_both_keeps:
  assumes "m \<noteq> []" and "\<not> P (hd m)" and "\<not> P (last m)"
  shows "\<exists>x' y'. rev (dropWhile P (rev (dropWhile P (x @ m @ y)))) = x' @ m @ y'"
proof -
  from dropWhile_keeps [of m P x y] assms obtain x' where
    x': "dropWhile P (x @ m @ y) = x' @ m @ y" by blast
  from assms have "rev m \<noteq> []" and "\<not> P (hd (rev m))" by (simp_all add: hd_rev)
  with dropWhile_keeps [of "rev m" P "rev y" "rev x'"] obtain z where
    z: "dropWhile P (rev y @ rev m @ rev x') = z @ rev m @ rev x'" by blast
  have "rev (dropWhile P (rev (x' @ m @ y))) = x' @ m @ rev z"
    using z by simp
  with x' show ?thesis by metis
qed

lemma replace_nbsp_spaces: "list_all isspace ws \<Longrightarrow> list_all isspace (replace_nbsp ws)"
  by (induction ws) (simp_all add: replace_nbsp_def isspace_replace)

lemma norm_cell_keeps_pattern:
  assumes "is_upper_AZ a" "is_upper_AZ b" "is_upper_AZ c" "list_all isspace ws"
    and "is_digit09 d1" "is_digit09 d2" "is_digit09 d3" "is_digit09 d4"
  shows "\<exists>x ws' y. list_all isspace ws' \<and>
     norm_cell (pre @ [CHR ''('', a, b, c, CHR '')''] @ ws @
                [CHR ''('', d1, d2, d3, d4, CHR '')''] @ post) =
       x @ ([CHR ''('', a, b, c, CHR '')''] @ ws' @ [CHR ''('', d1, d2, d3, d4, CHR '')'']) @ y"
proof -
  define ws' where "ws' = replace_nbsp ws"
  define m where "m = [CHR ''('', a, b, c, CHR '')''] @ ws' @ [CHR ''('', d1, d2, d3, d4, CHR '')'']"
  have sp: "list_all isspace ws'"
    using assms(4) by (simp add: ws'_def replace_nbsp_spaces)
  have rep: "replace_nbsp (pre @ [CHR ''('', a, b, c, CHR '')''] @ ws @
                [CHR ''('', d1, d2, d3, d4, CHR '')''] @ post) =
             replace_nbsp pre @ m @ replace_nbsp post"
    using assms by (simp add: replace_nbsp_def m_def ws'_def upper_AZ_not_nbsp digit09_not_nbsp)
  have m: "m \<noteq> []" "hd m = CHR ''(''" "last m = CHR '')''"
    by (simp_all add: m_def)
  from m have "\<not> isspace (hd m)" "\<not> isspace (last m)" by simp_all
  with strip_both_keeps [of m isspace "replace_nbsp pre" "replace_nbsp post"] m(1)
  obtain x1 y1 where
    s1: "strip (replace_nbsp pre @ m @ replace_nbsp post) = x1 @ m @ y1"
    unfolding strip_def by blast
  from m have "hd m \<noteq> CHR ''\"''" "last m \<noteq> CHR ''\"''" by simp_all
  with strip_both_keeps [of m "\<lambda>c. c = CHR ''\"''" x1 y1] m(1) obtain x2 y2 where
    s2: "strip_char CHR ''\"'' (x1 @ m @ y1) = x2 @ m @ y2"
    unfolding strip_char_def by blast
  from rep s1 s2 have "norm_cell (pre @ [CHR ''('', a, b, c, CHR '')''] @ ws @
                [CHR ''('', d1, d2, d3, d4, CHR '')''] @ post) = x2 @ m @ y2"
    by (simp add: norm_cell_def)
  with sp show ?thesis unfolding m_def by blast
qed

lemma looks_like_athlete_pattern:
  assumes "is_upper_AZ a" "is_upper_AZ b" "is_upper_AZ c" "list_all isspace ws"
    and "is_digit09 d1" "is_digit09 d2" "is_digit09 d3" "is_digit09 d4"
    and "cell = pre @ [CHR ''('', a, b, c, CHR '')''] @ ws @
                [CHR ''('', d1, d2, d3, d4, CHR '')''] @ post"
  shows "looks_like_athlete cell" and "looks_like_athlete (norm_cell cell)"
    and "norm_cell cell \<noteq> []"
proof -
  from norm_cell_keeps_pattern [OF assms(1-8), of pre post] assms(9)
  obtain x ws' y where sp: "list_all isspace ws'"
    and n: "norm_cell cell =
       x @ ([CHR ''('', a, b, c, CHR '')''] @ ws' @ [CHR ''('', d1, d2, d3, d4, CHR '')'']) @ y"
    by blast
  have here: "athlete_match_here
      ([CHR ''('', a, b, c, CHR '')''] @ ws' @ [CHR ''('', d1, d2, d3, d4, CHR '')''] @ y)"
    by (rule athlete_match_pattern) (use assms sp in simp_all)
  from re_search_append [OF here, of x] n show "looks_like_athlete cell"
    by (simp add: looks_like_athlete_def)
  from n show "norm_cell cell \<noteq> []" by simp
  from norm_cell_keeps_pattern [OF assms(1-3) sp assms(5-8), of x y] n
  obtain x2 ws2 y2 where sp2: "list_all isspace ws2"
    and n2: "norm_cell (norm_cell cell) =
       x2 @ ([CHR ''('', a, b, c, CHR '')''] @ ws2 @ [CHR ''('', d1, d2, d3, d4, CHR '')'']) @ y2"
    by auto
  have here2: "athlete_match_here
      ([CHR ''('', a, b, c, CHR '')''] @ ws2 @ [CHR ''('', d1, d2, d3, d4, CHR '')''] @ y2)"
    by (rule athlete_match_pattern) (use assms sp2 in simp_all)
  from re_search_append [OF here2, of x2] n2 show "looks_like_athlete (norm_cell cell)"
    by (simp add: looks_like_athlete_def)
qed

lemma trim_trailing_head:
  assumes "x \<noteq> []"
  shows "trim_trailing (x # xs) \<noteq> []" and "hd (trim_trailing (x # xs)) = x"
proof -
  have "trim_trailing (x # xs) = x # rev (dropWhile (\<lambda>c. c = []) (rev xs))"
    using assms by (simp add: trim_trailing_def dropWhile_append3)
  then show "trim_trailing (x # xs) \<noteq> []" and "hd (trim_trailing (x # xs)) = x"
    by simp_all
qed

text \<open>
  Claim C10. A row whose first cell contains, anywhere, a parenthesised code of three
  letters A to Z, then white space or nothing, then a parenthesised number of four
  digits, is an athlete marker: nothing else in the cell is looked at. Processing it
  flushes, sets the Athlete context to the normalised cell and clears Meet and Source.
\<close>

theorem athlete_marker_recognised:
  assumes "is_upper_AZ a" "is_upper_AZ b" "is_upper_AZ c" "list_all isspace ws"
    and "is_digit09 d1" "is_digit09 d2" "is_digit09 d3" "is_digit09 d4"
    and "cell = pre @ [CHR ''('', a, b, c, CHR '')''] @ ws @
                [CHR ''('', d1, d2, d3, d4, CHR '')''] @ post"
    and "row = trim_trailing (map norm_cell (cell # others))"
  shows "looks_like_athlete cell \<and>
    branch_taken row = AthleteMarker \<and>
    process_row st (map norm_cell (cell # others)) = Inr (athlete_header st row) \<and>
    athlete_header st row =
      (flush st)\<lparr>current_athlete := Some (norm_cell cell), current_meet := None,
                  current_source := None\<rparr>"
proof -
  note p = looks_like_athlete_pattern [OF assms(1-9)]
  from trim_trailing_head [OF p(3), of "map norm_cell others"] assms(10)
  have row: "row \<noteq> []" "hd row = norm_cell cell" by simp_all
  with p(2) have b: "branch_taken row = AthleteMarker" by (simp add: branch_taken_def)
  have "process_row st (map norm_cell (cell # others)) = dispatch (branch_taken row) st row"
    using assms(10) by (simp only: process_row_dispatch)
  with b have d: "process_row st (map norm_cell (cell # others)) = Inr (athlete_header st row)"
    by (simp add: dispatch_def)
  from row have "athlete_header st row =
      (flush st)\<lparr>current_athlete := Some (norm_cell cell), current_meet := None,
                  current_source := None\<rparr>"
    by (simp add: athlete_header_def)
  with p(1) b d show ?thesis by simp
qed

theorem athlete_marker_recognised_witness:
  "is_upper_AZ CHR ''U'' \<and> is_upper_AZ CHR ''S'' \<and> is_upper_AZ CHR ''A'' \<and>
   list_all isspace '' '' \<and> is_digit09 CHR ''1'' \<and> is_digit09 CHR ''9'' \<and>
   ''(USA) (1999)'' = [] @ [CHR ''('', CHR ''U'', CHR ''S'', CHR ''A'', CHR '')''] @ '' '' @
      [CHR ''('', CHR ''1'', CHR ''9'', CHR ''9'', CHR ''9'', CHR '')''] @ [] \<and>
   [''(USA) (1999)''] = trim_trailing (map norm_cell [''(USA) (1999)'']) \<and>
   looks_like_athlete ''(USA) (1999)'' \<and>
   branch_taken [''(USA) (1999)''] = AthleteMarker \<and>
   process_row init_state (map norm_cell [''(USA) (1999)'']) =
     Inr (init_state\<lparr>current_athlete := Some ''(USA) (1999)''\<rparr>)"
proof -
  have u: "is_upper_AZ CHR ''U''" "is_upper_AZ CHR ''S''" "is_upper_AZ CHR ''A''"
    by (simp_all add: is_upper_AZ_def)
  have d: "is_digit09 CHR ''1''" "is_digit09 CHR ''9''"
    by (simp_all add: is_digit09_def)
  have w: "list_all isspace '' ''"
    by (simp add: isspace_def)
  have c: "''(USA) (1999)'' = [] @ [CHR ''('', CHR ''U'', CHR ''S'', CHR ''A'', CHR '')''] @ '' '' @
      [CHR ''('', CHR ''1'', CHR ''9'', CHR ''9'', CHR ''9'', CHR '')''] @ []"
    by simp
  have n: "norm_cell ''(USA) (1999)'' = ''(USA) (1999)''"
    by (simp add: norm_defs)
  have r: "[''(USA) (1999)''] = trim_trailing (map norm_cell [''(USA) (1999)''])"
    by (simp add: n trim_trailing_def)
  note t = athlete_marker_recognised [OF u w d(1) d(2) d(2) d(2) c r, of init_state]
  from t have t1: "looks_like_athlete ''(USA) (1999)''"
    and t2: "branch_taken [''(USA) (1999)''] = AthleteMarker"
    by blast+
  from t have "process_row init_state (map norm_cell [''(USA) (1999)'']) =
     Inr ((flush init_state)\<lparr>current_athlete := Some (norm_cell ''(USA) (1999)''),
            current_meet := None, current_source := None\<rparr>)"
    by metis
  then have t3: "process_row init_state (map norm_cell [''(USA) (1999)'']) =
     Inr (init_state\<lparr>current_athlete := Some ''(USA) (1999)''\<rparr>)"
    by (simp add: n flush_empty init_state_def)
  show ?thesis
    by (intro conjI u w d c r t1 t2 t3)
qed

section \<open>Derived velocities of every record\<close>

text \<open>
  With the division that raises on a zero divisor, the computation of the derived
  fields returns, and returns what \<open>compute_derived\<close> does.
\<close>

lemma compute_derived_checked:
  "compute_derived_with exact_ops p = Inr (compute_derived p)"
  by (cases "get (Split_100m p)"; cases "get (Split_200m p)")
     (simp_all add: compute_derived_with_def compute_derived_def exact_ops_def py_div_def
        Let_def)

text \<open>
  In any arithmetic whose division returns on the divisors that pass the test
  \<^verbatim>\<open>x > 0\<close>, the computation returns, and each velocity is \<^verbatim>\<open>None\<close> or the rounded
  quotient according to that test alone.
\<close>

lemma compute_derived_with_returns:
  assumes dv: "\<forall>b. op_pos ops b \<longrightarrow> (\<exists>v. op_div ops (op_hundred ops) b = Inr v)"
    and nd: "no_derived p"
  shows "\<exists>q. compute_derived_with ops p = Inr q \<and>
     Split_100m q = Split_100m p \<and> Split_200m q = Split_200m p \<and>
     Vel_0_100m q =
       (case get (Split_100m p) of
          None \<Rightarrow> Missing
        | Some a \<Rightarrow>
            if op_pos ops a
            then (case op_div ops (op_hundred ops) a of
                    Inr v \<Rightarrow> Has (op_round ops v) | Inl e \<Rightarrow> Null)
            else Null) \<and>
     Vel_100_200m q =
       (case (get (Split_100m p), get (Split_200m p)) of
          (Some a, Some b) \<Rightarrow>
            if op_pos ops (op_sub ops b a)
            then (case op_div ops (op_hundred ops) (op_sub ops b a) of
                    Inr v \<Rightarrow> Has (op_round ops v) | Inl e \<Rightarrow> Null)
            else Null
        | _ \<Rightarrow> Missing)"
proof (cases "get (Split_100m p)")
  case None
  with nd show ?thesis
    by (simp add: compute_derived_with_def no_derived_def)
next
  case a: (Some a)
  show ?thesis
  proof (cases "op_pos ops a")
    case pa: True
    with dv obtain v where v: "op_div ops (op_hundred ops) a = Inr v" by blast
    show ?thesis
    proof (cases "get (Split_200m p)")
      case None
      with a pa v nd show ?thesis
        by (simp add: compute_derived_with_def no_derived_def Let_def)
    next
      case b: (Some b)
      show ?thesis
      proof (cases "op_pos ops (op_sub ops b a)")
        case True
        with dv obtain w where "op_div ops (op_hundred ops) (op_sub ops b a) = Inr w"
          by blast
        with a b pa v True show ?thesis
          by (simp add: compute_derived_with_def Let_def)
      next
        case False
        with a b pa v show ?thesis
          by (simp add: compute_derived_with_def Let_def)
      qed
    qed
  next
    case na: False
    show ?thesis
    proof (cases "get (Split_200m p)")
      case None
      with a na nd show ?thesis
        by (simp add: compute_derived_with_def no_derived_def Let_def)
    next
      case b: (Some b)
      show ?thesis
      proof (cases "op_pos ops (op_sub ops b a)")
        case True
        with dv obtain w where "op_div ops (op_hundred ops) (op_sub ops b a) = Inr w"
          by blast
        with a b na True show ?thesis
          by (simp add: compute_derived_with_def Let_def)
      next
        case False
        with a b na show ?thesis
          by (simp add: compute_derived_with_def Let_def)
      qed
    qed
  qed
qed

lemma compute_derived_with_presence:
  assumes dv: "\<forall>b. op_pos ops b \<longrightarrow> (\<exists>v. op_div ops (op_hundred ops) b = Inr v)"
    and nd: "no_derived p"
  shows "\<exists>q. compute_derived_with ops p = Inr q \<and>
     (get (Vel_0_100m q) \<noteq> None \<longleftrightarrow>
        (\<exists>a. get (Split_100m p) = Some a \<and> op_pos ops a)) \<and>
     (get (Vel_100_200m q) \<noteq> None \<longleftrightarrow>
        (\<exists>a b. get (Split_100m p) = Some a \<and> get (Split_200m p) = Some b \<and>
               op_pos ops (op_sub ops b a))) \<and>
     (\<forall>v. Vel_0_100m q = Has v \<longrightarrow>
        (\<exists>a w. get (Split_100m p) = Some a \<and> op_div ops (op_hundred ops) a = Inr w \<and>
               v = op_round ops w)) \<and>
     (\<forall>v. Vel_100_200m q = Has v \<longrightarrow>
        (\<exists>a b w. get (Split_100m p) = Some a \<and> get (Split_200m p) = Some b \<and>
               op_div ops (op_hundred ops) (op_sub ops b a) = Inr w \<and> v = op_round ops w))"
proof -
  from compute_derived_with_returns [OF dv nd] obtain q
    where q: "compute_derived_with ops p = Inr q"
      and v1: "Vel_0_100m q =
       (case get (Split_100m p) of
          None \<Rightarrow> Missing
        | Some a \<Rightarrow>
            if op_pos ops a
            then (case op_div ops (op_hundred ops) a of
                    Inr v \<Rightarrow> Has (op_round ops v) | Inl e \<Rightarrow> Null)
            else Null)"
      and v2: "Vel_100_200m q =
       (case (get (Split_100m p), get (Split_200m p)) of
          (Some a, Some b) \<Rightarrow>
            if op_pos ops (op_sub ops b a)
            then (case op_div ops (op_hundred ops) (op_sub ops b a) of
                    Inr v \<Rightarrow> Has (op_round ops v) | Inl e \<Rightarrow> Null)
            else Null
        | _ \<Rightarrow> Missing)"
    by blast
  have p1: "get (Vel_0_100m q) \<noteq> None \<longleftrightarrow> (\<exists>a. get (Split_100m p) = Some a \<and> op_pos ops a)"
    using dv by (auto simp: v1 get_def split: option.splits sum.splits)
  have p2: "get (Vel_100_200m q) \<noteq> None \<longleftrightarrow>
        (\<exists>a b. get (Split_100m p) = Some a \<and> get (Split_200m p) = Some b \<and>
               op_pos ops (op_sub ops b a))"
    using dv by (auto simp: v2 get_def split: option.splits sum.splits)
  have p3: "\<forall>v. Vel_0_100m q = Has v \<longrightarrow>
        (\<exists>a w. get (Split_100m p) = Some a \<and> op_div ops (op_hundred ops) a = Inr w \<and>
               v = op_round ops w)"
    by (auto simp: v1 split: option.splits sum.splits if_splits)
  have p4: "\<forall>v. Vel_100_200m q = Has v \<longrightarrow>
        (\<exists>a b w. get (Split_100m p) = Some a \<and> get (Split_200m p) = Some b \<and>
               op_div ops (op_hundred ops) (op_sub ops b a) = Inr w \<and> v = op_round ops w)"
    by (auto simp: v2 split: option.splits sum.splits if_splits)
  from q p1 p2 p3 p4 show ?thesis by blast
qed

lemma exact_ops_positive:
  "\<forall>b. op_pos exact_ops b \<longrightarrow> (\<exists>v. op_div exact_ops (op_hundred exact_ops) b = Inr v)"
  by (simp add: exact_ops_def py_div_def)

subsection \<open>A record with non-positive durations\<close>

lemma negative_norm:
  "norm_cell ''-5'' = ''-5''"
  "norm_cell ''3'' = ''3''"
  "norm_cell ''-7'' = ''-7''"
  by (simp_all add: norm_defs)

lemma negative_lower:
  "lower ''-5'' = ''-5''"
  "lower ''3'' = ''3''"
  "lower ''-7'' = ''-7''"
  by (simp_all add: token_defs)

lemma negative_float:
  "parse_float ''-5'' = Some (- 5)"
  "parse_float ''3'' = Some 3"
  "parse_float ''-7'' = Some (- 7)"
  by (simp_all add: negative_norm float_defs Let_def)

lemma negative_date_facts:
  "trim_trailing negative_date = negative_date"
  "map norm_cell negative_date = negative_date"
  "branch_taken negative_date = DateRow"
  "find_token_idx negative_date ''date'' = Some 0"
  "find_token_idx negative_date ''time'' = None"
  "first_nonempty_after negative_date 0 = Some ''1''"
  "numeric_cells negative_date = [1, - 5, 3, - 7]"
  by (simp_all add: negative_date_def trim_trailing_def branch_taken_def
        looks_like_athlete_def is_source_text_def sublist_code row_contains_token_def
        first_nonempty_after_def numeric_cells_def map_filter_simps cells_norm cells_lower
        tokens_lower cells_float slow_norm slow_lower slow_float negative_norm negative_lower
        negative_float)

lemma negative_splits:
  "extract_splits negative_date =
     \<lparr>s50 = Some 1, s100 = Some (- 5), s150 = Some 3, s200 = Some (- 7),
      time_val = Some (- 7)\<rparr>"
  by (simp add: extract_splits_def strategy_A_def strategy_B_def no_splits_def
        negative_date_facts)

lemma negative_step:
  "process_row init_state negative_date = Inr (init_state\<lparr>pending := negative_pending\<rparr>)"
  by (simp add: process_row_dispatch negative_date_facts dispatch_def date_row_def
        negative_splits flush_empty init_state_def negative_pending_def of_opt_def)

lemma negative_flush:
  "flush (init_state\<lparr>pending := negative_pending\<rparr>) =
     init_state\<lparr>records := [negative_record]\<rparr>"
  by (simp add: flush_def init_state_def negative_pending_def negative_record_def
        empty_dict_def compute_derived_def get_def truthy_def round2_def round_half_even_def
        ath_mt_strd_def fmt_get_def strip_char_def Let_def)

lemma negative_run: "run [negative_date] = Inr [negative_record]"
  by (simp add: run_def negative_date_facts negative_step negative_flush)

text \<open>
  Claim C8, amended. For every record of the output, each derived velocity is absent
  when a split it needs is absent or when its segment duration is not positive, and is
  present and not negative when the splits are present and the duration is positive.
  The computation never fails: with a division that raises on a zero divisor it returns
  what \<open>compute_derived\<close> returns. This does not depend on how the float arithmetic
  rounds or overflows. In every state the row loop reaches, \<^verbatim>\<open>pending\<close> holds no derived
  key; and on such a dictionary, over any type of float values and for any rounding, any
  subtraction, any test \<^verbatim>\<open>x > 0\<close> and any division that returns on the divisors passing
  that test, the computation returns, a velocity is present exactly when its splits are
  present and its duration passes the test, and a velocity that is present is the
  rounded quotient of 100 by that duration. So the division is only ever applied to a
  duration that has passed the test \<^verbatim>\<open>x > 0\<close>.
\<close>

theorem derived_velocities:
  assumes "run rows = Inr recs" and "r \<in> set recs"
  shows
   "(get (Split_100m r) = None \<longrightarrow>
       get (Vel_0_100m r) = None \<and> get (Vel_100_200m r) = None) \<and>
    (get (Split_200m r) = None \<longrightarrow> get (Vel_100_200m r) = None) \<and>
    (\<forall>a. get (Split_100m r) = Some a \<longrightarrow>
       (a \<le> 0 \<longrightarrow> get (Vel_0_100m r) = None) \<and>
       (0 < a \<longrightarrow> (\<exists>v. Vel_0_100m r = Has v \<and> 0 \<le> v))) \<and>
    (\<forall>a b. get (Split_100m r) = Some a \<and> get (Split_200m r) = Some b \<longrightarrow>
       (b - a \<le> 0 \<longrightarrow> get (Vel_100_200m r) = None) \<and>
       (0 < b - a \<longrightarrow> (\<exists>v. Vel_100_200m r = Has v \<and> 0 \<le> v))) \<and>
    (\<forall>p. compute_derived_with exact_ops p = Inr (compute_derived p)) \<and>
    (\<forall>rows' st. process_rows init_state rows' = Inr st \<longrightarrow> no_derived (pending st)) \<and>
    (\<forall>(ops :: 'f float_ops) p.
       (\<forall>b. op_pos ops b \<longrightarrow> (\<exists>v. op_div ops (op_hundred ops) b = Inr v)) \<and>
       no_derived p \<longrightarrow>
       (\<exists>q. compute_derived_with ops p = Inr q \<and>
          (get (Vel_0_100m q) \<noteq> None \<longleftrightarrow>
             (\<exists>a. get (Split_100m p) = Some a \<and> op_pos ops a)) \<and>
          (get (Vel_100_200m q) \<noteq> None \<longleftrightarrow>
             (\<exists>a b. get (Split_100m p) = Some a \<and> get (Split_200m p) = Some b \<and>
                    op_pos ops (op_sub ops b a))) \<and>
          (\<forall>v. Vel_0_100m q = Has v \<longrightarrow>
             (\<exists>a w. get (Split_100m p) = Some a \<and>
                    op_div ops (op_hundred ops) a = Inr w \<and> v = op_round ops w)) \<and>
          (\<forall>v. Vel_100_200m q = Has v \<longrightarrow>
             (\<exists>a b w. get (Split_100m p) = Some a \<and> get (Split_200m p) = Some b \<and>
                    op_div ops (op_hundred ops) (op_sub ops b a) = Inr w \<and>
                    v = op_round ops w))))"
proof -
  from assms(1) have "list_all velocities_ok recs" by (rule run_velocities_ok)
  with assms(2) have ok: "velocities_ok r" by (simp add: list_all_iff)
  have records: "(get (Split_100m r) = None \<longrightarrow>
       get (Vel_0_100m r) = None \<and> get (Vel_100_200m r) = None) \<and>
    (get (Split_200m r) = None \<longrightarrow> get (Vel_100_200m r) = None) \<and>
    (\<forall>a. get (Split_100m r) = Some a \<longrightarrow>
       (a \<le> 0 \<longrightarrow> get (Vel_0_100m r) = None) \<and>
       (0 < a \<longrightarrow> (\<exists>v. Vel_0_100m r = Has v \<and> 0 \<le> v))) \<and>
    (\<forall>a b. get (Split_100m r) = Some a \<and> get (Split_200m r) = Some b \<longrightarrow>
       (b - a \<le> 0 \<longrightarrow> get (Vel_100_200m r) = None) \<and>
       (0 < b - a \<longrightarrow> (\<exists>v. Vel_100_200m r = Has v \<and> 0 \<le> v)))"
    using ok
    by (auto simp: velocities_ok_def get_def split: option.splits slot.splits if_splits)
  have checked: "\<forall>p. compute_derived_with exact_ops p = Inr (compute_derived p)"
    by (simp add: compute_derived_checked)
  have reached: "\<forall>rows' st. process_rows init_state rows' = Inr st \<longrightarrow>
      no_derived (pending st)"
    using process_rows_inv [OF init_inv] by (simp add: pass_inv_def)
  have generic: "\<forall>(ops :: 'f float_ops) p.
       (\<forall>b. op_pos ops b \<longrightarrow> (\<exists>v. op_div ops (op_hundred ops) b = Inr v)) \<and>
       no_derived p \<longrightarrow>
       (\<exists>q. compute_derived_with ops p = Inr q \<and>
          (get (Vel_0_100m q) \<noteq> None \<longleftrightarrow>
             (\<exists>a. get (Split_100m p) = Some a \<and> op_pos ops a)) \<and>
          (get (Vel_100_200m q) \<noteq> None \<longleftrightarrow>
             (\<exists>a b. get (Split_100m p) = Some a \<and> get (Split_200m p) = Some b \<and>
                    op_pos ops (op_sub ops b a))) \<and>
          (\<forall>v. Vel_0_100m q = Has v \<longrightarrow>
             (\<exists>a w. get (Split_100m p) = Some a \<and>
                    op_div ops (op_hundred ops) a = Inr w \<and> v = op_round ops w)) \<and>
          (\<forall>v. Vel_100_200m q = Has v \<longrightarrow>
             (\<exists>a b w. get (Split_100m p) = Some a \<and> get (Split_200m p) = Some b \<and>
                    op_div ops (op_hundred ops) (op_sub ops b a) = Inr w \<and>
                    v = op_round ops w)))"
  proof (intro allI impI)
    fix ops :: "'f float_ops" and p :: "'f perf_of"
    assume h: "(\<forall>b. op_pos ops b \<longrightarrow> (\<exists>v. op_div ops (op_hundred ops) b = Inr v)) \<and>
       no_derived p"
    then have dv: "\<forall>b. op_pos ops b \<longrightarrow> (\<exists>v. op_div ops (op_hundred ops) b = Inr v)"
      and nd: "no_derived p"
      by blast+
    from compute_derived_with_presence [OF dv nd]
    show "\<exists>q. compute_derived_with ops p = Inr q \<and>
          (get (Vel_0_100m q) \<noteq> None \<longleftrightarrow>
             (\<exists>a. get (Split_100m p) = Some a \<and> op_pos ops a)) \<and>
          (get (Vel_100_200m q) \<noteq> None \<longleftrightarrow>
             (\<exists>a b. get (Split_100m p) = Some a \<and> get (Split_200m p) = Some b \<and>
                    op_pos ops (op_sub ops b a))) \<and>
          (\<forall>v. Vel_0_100m q = Has v \<longrightarrow>
             (\<exists>a w. get (Split_100m p) = Some a \<and>
                    op_div ops (op_hundred ops) a = Inr w \<and> v = op_round ops w)) \<and>
          (\<forall>v. Vel_100_200m q = Has v \<longrightarrow>
             (\<exists>a b w. get (Split_100m p) = Some a \<and> get (Split_200m p) = Some b \<and>
                    op_div ops (op_hundred ops) (op_sub ops b a) = Inr w \<and>
                    v = op_round ops w))" .
  qed
  show ?thesis
    by (intro conjI records [THEN conjunct1] records [THEN conjunct2, THEN conjunct1]
          records [THEN conjunct2, THEN conjunct2, THEN conjunct1]
          records [THEN conjunct2, THEN conjunct2, THEN conjunct2] checked reached generic)
qed

theorem derived_velocities_witness:
  "run [lausanne_meet, lausanne_date] = Inr [lausanne_record] \<and>
   lausanne_record \<in> set [lausanne_record] \<and>
   get (Split_100m lausanne_record) = Some 10.10 \<and>
   get (Split_200m lausanne_record) = Some 19.95 \<and>
   (0::real) < 10.10 \<and> (0::real) < 19.95 - 10.10 \<and>
   (\<exists>v. Vel_0_100m lausanne_record = Has v \<and> 0 \<le> v) \<and>
   (\<exists>v. Vel_100_200m lausanne_record = Has v \<and> 0 \<le> v) \<and>
   run [negative_date] = Inr [negative_record] \<and>
   negative_record \<in> set [negative_record] \<and>
   get (Split_100m negative_record) = Some (- 5) \<and>
   get (Split_200m negative_record) = Some (- 7) \<and>
   (- 5::real) \<le> 0 \<and> (- 7::real) - (- 5) \<le> 0 \<and>
   get (Vel_0_100m negative_record) = None \<and>
   get (Vel_100_200m negative_record) = None \<and>
   run [bolt_header, bare_date] = Inr [bolt_record] \<and>
   bolt_record \<in> set [bolt_record] \<and>
   get (Split_100m bolt_record) = None \<and>
   get (Split_200m bolt_record) = None \<and>
   get (Vel_0_100m bolt_record) = None \<and>
   get (Vel_100_200m bolt_record) = None \<and>
   process_rows init_state [negative_date] = Inr (init_state\<lparr>pending := negative_pending\<rparr>) \<and>
   no_derived (pending (init_state\<lparr>pending := negative_pending\<rparr>)) \<and>
   op_pos exact_ops 10.10 \<and>
   op_div exact_ops (op_hundred exact_ops) 10.10 = Inr (100 / 10.10) \<and>
   no_derived lausanne_pending \<and>
   (\<exists>q. compute_derived_with exact_ops lausanne_pending = Inr q \<and>
      get (Vel_0_100m q) \<noteq> None \<and> get (Vel_100_200m q) \<noteq> None)"
proof -
  have m: "lausanne_record \<in> set [lausanne_record]" "negative_record \<in> set [negative_record]"
    "bolt_record \<in> set [bolt_record]"
    by simp_all
  have l: "get (Split_100m lausanne_record) = Some 10.10"
    "get (Split_200m lausanne_record) = Some 19.95"
    by (simp_all add: lausanne_record_def lausanne_pending_def get_def)
  have lp: "get (Split_100m lausanne_pending) = Some 10.10"
    "get (Split_200m lausanne_pending) = Some 19.95"
    by (simp_all add: lausanne_pending_def get_def)
  have n: "get (Split_100m negative_record) = Some (- 5)"
    "get (Split_200m negative_record) = Some (- 7)"
    by (simp_all add: negative_record_def negative_pending_def get_def)
  have b: "get (Split_100m bolt_record) = None" "get (Split_200m bolt_record) = None"
    by (simp_all add: bolt_record_def bolt_pending_def get_def)
  have p: "(0::real) < 10.10" "(0::real) < 19.95 - 10.10" "(- 5::real) \<le> 0"
    "(- 7::real) - (- 5) \<le> 0"
    by simp_all
  have e: "op_pos exact_ops 10.10"
    "op_div exact_ops (op_hundred exact_ops) 10.10 = Inr (100 / 10.10)"
    by (simp_all add: exact_ops_def py_div_def)
  have e2: "op_pos exact_ops (op_sub exact_ops 19.95 10.10)"
    by (simp add: exact_ops_def)
  have nd: "no_derived lausanne_pending"
    by (simp add: no_derived_def lausanne_pending_def empty_dict_def)
  have s: "process_rows init_state [negative_date] =
      Inr (init_state\<lparr>pending := negative_pending\<rparr>)"
    by (simp add: negative_step)
  note tl = derived_velocities [OF lausanne_run m(1)]
  note tn = derived_velocities [OF negative_run m(2)]
  note tb = derived_velocities [OF bolt_run m(3)]
  note tl3 = tl [THEN conjunct2, THEN conjunct2, THEN conjunct1]
  note tl4 = tl [THEN conjunct2, THEN conjunct2, THEN conjunct2, THEN conjunct1]
  note tn3 = tn [THEN conjunct2, THEN conjunct2, THEN conjunct1]
  note tn4 = tn [THEN conjunct2, THEN conjunct2, THEN conjunct2, THEN conjunct1]
  note tb1 = tb [THEN conjunct1]
  note tn6 = tn [THEN conjunct2, THEN conjunct2, THEN conjunct2, THEN conjunct2,
    THEN conjunct2, THEN conjunct1]
  note tl7 = tl [THEN conjunct2, THEN conjunct2, THEN conjunct2, THEN conjunct2,
    THEN conjunct2, THEN conjunct2, THEN spec [where x = exact_ops],
    THEN spec [where x = lausanne_pending], THEN mp, OF conjI, OF exact_ops_positive nd]
  from tl3 l(1) p(1) have l1: "\<exists>v. Vel_0_100m lausanne_record = Has v \<and> 0 \<le> v" by blast
  from tl4 l p(2) have l2: "\<exists>v. Vel_100_200m lausanne_record = Has v \<and> 0 \<le> v" by blast
  from tn3 n(1) p(3) have n1: "get (Vel_0_100m negative_record) = None" by blast
  from tn4 n p(4) have n2: "get (Vel_100_200m negative_record) = None" by blast
  from tb1 b(1) have b1: "get (Vel_0_100m bolt_record) = None"
    and b2: "get (Vel_100_200m bolt_record) = None" by blast+
  from tn6 s have s1: "no_derived (pending (init_state\<lparr>pending := negative_pending\<rparr>))"
    by blast
  from tl7 obtain q where q: "compute_derived_with exact_ops lausanne_pending = Inr q"
    and q1: "get (Vel_0_100m q) \<noteq> None \<longleftrightarrow>
       (\<exists>a. get (Split_100m lausanne_pending) = Some a \<and> op_pos exact_ops a)"
    and q2: "get (Vel_100_200m q) \<noteq> None \<longleftrightarrow>
       (\<exists>a b. get (Split_100m lausanne_pending) = Some a \<and>
              get (Split_200m lausanne_pending) = Some b \<and>
              op_pos exact_ops (op_sub exact_ops b a))"
    by blast
  from q1 lp(1) e(1) have q1': "get (Vel_0_100m q) \<noteq> None" by blast
  from q2 lp e2 have q2': "get (Vel_100_200m q) \<noteq> None" by blast
  from q q1' q2'
  have g: "\<exists>q. compute_derived_with exact_ops lausanne_pending = Inr q \<and>
      get (Vel_0_100m q) \<noteq> None \<and> get (Vel_100_200m q) \<noteq> None"
    by blast
  show ?thesis
    by (intro conjI lausanne_run negative_run bolt_run m l n b p l1 l2 n1 n2 b1 b2 s s1 e nd g)
qed

end
